theory Spec2Isabelle
  imports Complex_Main "HOL-Library.Sublist" "HOL-Library.Product_Lexorder" "HOL-Library.Multiset"
begin

chapter \<open>The model of the sources\<close>

section \<open>Python runtime values used by the sources\<close>

text \<open>
  Exceptions are values. The constructors are the exception classes the sources raise or
  catch: \<open>ValueError\<close> (numpy shape mismatch, \<open>range\<close> with step zero, \<open>max\<close> of an empty
  sequence), \<open>IndexError\<close>, \<open>KeyError\<close>, \<open>ZeroDivisionError\<close>, the three provider
  errors of the openai client, and any other \<open>Exception\<close>. The first string is \<open>str(e)\<close>;
  \<open>APIStatusError\<close> also carries \<open>e.status_code\<close> and the text of \<open>e.response\<close>.
\<close>

datatype py_exception =
    ValueError string
  | IndexError string
  | KeyError string
  | ZeroDivisionError string
  | APIConnectionError string
  | RateLimitError string
  | APIStatusError string int string
  | OtherException string

fun exception_str :: "py_exception \<Rightarrow> string" where
  "exception_str (ValueError m) = m"
| "exception_str (IndexError m) = m"
| "exception_str (KeyError m) = m"
| "exception_str (ZeroDivisionError m) = m"
| "exception_str (APIConnectionError m) = m"
| "exception_str (RateLimitError m) = m"
| "exception_str (APIStatusError m code response) = m"
| "exception_str (OtherException m) = m"

text \<open>\<open>str(n)\<close> for an integer: decimal digits, a leading minus sign when negative.\<close>

definition digit_char :: "nat \<Rightarrow> char" where
  "digit_char d = ''0123456789'' ! d"

function str_nat :: "nat \<Rightarrow> string" where
  "str_nat n = (if n < 10 then [digit_char n] else str_nat (n div 10) @ [digit_char (n mod 10)])"
  by pat_completeness auto
termination
  by (relation "measure (\<lambda>n. n)") auto

declare str_nat.simps [simp del]

definition str_int :: "int \<Rightarrow> string" where
  "str_int i = (if i < 0 then CHR ''-'' # str_nat (nat (- i)) else str_nat (nat i))"

text \<open>
  A work item id comes from JSON and is a number or a string; the sources compare ids
  through \<open>str(...)\<close>.
\<close>

datatype json_id = IdInt int | IdStr string

fun py_str :: "json_id \<Rightarrow> string" where
  "py_str (IdInt i) = str_int i"
| "py_str (IdStr s) = s"

text \<open>
  \<open>str.isspace\<close> on the code points below 256 (a \<open>char\<close> is one such code point),
  \<open>str.strip()\<close>, \<open>str.replace("\n", " ")\<close> and the newline character.
\<close>

definition py_isspace :: "char \<Rightarrow> bool" where
  "py_isspace c = (of_char c \<in> set [9, 10, 11, 12, 13, 28, 29, 30, 31, 32, 133, 160 :: nat])"

definition py_strip :: "string \<Rightarrow> string" where
  "py_strip s = rev (dropWhile py_isspace (rev (dropWhile py_isspace s)))"

definition nl :: string where
  "nl = [CHR 0x0A]"

definition replace_newlines :: "string \<Rightarrow> string" where
  "replace_newlines s = map (\<lambda>c. if c = CHR 0x0A then CHR '' '' else c) s"

text \<open>
  \<open>s.split(sep)\<close> for a non-empty separator: the pieces between the non-overlapping
  occurrences of \<open>sep\<close>, found left to right. The sources test for the empty separator
  before they call \<open>split\<close>, so the \<open>ValueError\<close> of \<open>split("")\<close> is never reached; here an
  empty separator splits nowhere.
\<close>

function split_from :: "string \<Rightarrow> string \<Rightarrow> string \<Rightarrow> string list" where
  "split_from sep piece [] = [rev piece]"
| "split_from sep piece (c # cs) =
     (if sep \<noteq> [] \<and> prefix sep (c # cs)
      then rev piece # split_from sep [] (drop (length sep - 1) cs)
      else split_from sep (c # piece) cs)"
  by pat_completeness auto
termination
  by (relation "measure (\<lambda>(sep, piece, s). length s)") auto

definition py_split :: "string \<Rightarrow> string \<Rightarrow> string list" where
  "py_split s sep = split_from sep [] s"

text \<open>List indexing \<open>xs[i]\<close> with a non-negative index, and the slices \<open>xs[:k]\<close>,
  \<open>xs[a:]\<close> and \<open>xs[a:b]\<close> with Python's treatment of negative and oversized bounds.\<close>

definition list_get :: "'a list \<Rightarrow> nat \<Rightarrow> py_exception + 'a" where
  "list_get xs i =
     (if i < length xs then Inr (xs ! i) else Inl (IndexError ''list index out of range''))"

definition slice_bound :: "nat \<Rightarrow> int \<Rightarrow> nat" where
  "slice_bound n i = (if i < 0 then nat (max 0 (int n + i)) else min n (nat i))"

definition py_slice :: "'a list \<Rightarrow> int \<Rightarrow> int \<Rightarrow> 'a list" where
  "py_slice xs a b =
     (let lo = slice_bound (length xs) a; hi = slice_bound (length xs) b
      in take (hi - lo) (drop lo xs))"

definition py_slice_to :: "'a list \<Rightarrow> int \<Rightarrow> 'a list" where
  "py_slice_to xs k = take (slice_bound (length xs) k) xs"

definition py_slice_from :: "'a list \<Rightarrow> int \<Rightarrow> 'a list" where
  "py_slice_from xs a = drop (slice_bound (length xs) a) xs"

text \<open>
  \<open>range(0, n, step)\<close> as a list: \<open>ValueError\<close> for step zero, empty for a negative
  step, otherwise \<open>0, step, 2 * step, ...\<close> below \<open>n\<close>.
\<close>

definition py_range :: "int \<Rightarrow> int \<Rightarrow> py_exception + int list" where
  "py_range n step =
     (if step = 0 then Inl (ValueError ''range() arg 3 must not be zero'')
      else if step < 0 \<or> n \<le> 0 then Inr []
      else Inr (map (\<lambda>k. int k * step) [0..<nat ((n + step - 1) div step)]))"

text \<open>
  \<open>list.sort(key=..., reverse=True)\<close>: CPython reverses the list, sorts it stably in
  ascending key order and reverses the result, so equal keys keep their original order.
\<close>

definition py_sort_reverse :: "('a \<Rightarrow> 'k::linorder) \<Rightarrow> 'a list \<Rightarrow> 'a list" where
  "py_sort_reverse key xs = rev (sort_key key (rev xs))"

text \<open>\<open>max(xs)\<close> and \<open>sum(xs) / len(xs)\<close> over floats, read as reals.\<close>

definition py_max :: "real list \<Rightarrow> py_exception + real" where
  "py_max xs =
     (case xs of
        [] \<Rightarrow> Inl (ValueError ''max() arg is an empty sequence'')
      | x # rest \<Rightarrow> Inr (fold max rest x))"

definition py_mean :: "real list \<Rightarrow> py_exception + real" where
  "py_mean xs =
     (if length xs = 0 then Inl (ZeroDivisionError ''division by zero'')
      else Inr (sum_list xs / real (length xs)))"

text \<open>
  The arithmetic of floats is a parameter: \<open>float_sum\<close> is what \<open>sum(xs)\<close> returns for
  a list of floats and \<open>float_div\<close> is what \<open>x / n\<close> returns, whatever the precision
  (NumPy scalars or Python floats) and the rounding of the platform. A float is read as
  the real it denotes, and comparing two floats is exact. \<open>float_mean\<close> is
  \<open>sum(xs) / len(xs)\<close> computed with that arithmetic.
\<close>

record float_ops =
  float_sum :: "real list \<Rightarrow> real"
  float_div :: "real \<Rightarrow> real \<Rightarrow> real"

definition float_mean :: "float_ops \<Rightarrow> real list \<Rightarrow> py_exception + real" where
  "float_mean fl xs =
     (if length xs = 0 then Inl (ZeroDivisionError ''division by zero'')
      else Inr (float_div fl (float_sum fl xs) (real (length xs))))"

text \<open>
  A \<open>dict\<close> keeps its keys in insertion order: an association list with distinct keys.
  \<open>d[k] = v\<close> replaces the value of a present key in place and appends a new key;
  \<open>d[k]\<close> raises \<open>KeyError\<close> for a missing key; \<open>d.get(k)\<close> is \<open>map_of\<close>.
\<close>

fun dict_set :: "('k \<times> 'v) list \<Rightarrow> 'k \<Rightarrow> 'v \<Rightarrow> ('k \<times> 'v) list" where
  "dict_set [] k v = [(k, v)]"
| "dict_set ((k', v') # d) k v = (if k' = k then (k, v) # d else (k', v') # dict_set d k v)"

definition dict_getitem :: "(string \<times> 'v) list \<Rightarrow> string \<Rightarrow> py_exception + 'v" where
  "dict_getitem d k = (case map_of d k of None \<Rightarrow> Inl (KeyError k) | Some v \<Rightarrow> Inr v)"

text \<open>Truthiness of \<open>d.get(k)\<close> for string values: present and not empty.\<close>

definition dict_get_truthy :: "(string \<times> string) list \<Rightarrow> string \<Rightarrow> bool" where
  "dict_get_truthy d k = (case map_of d k of None \<Rightarrow> False | Some v \<Rightarrow> v \<noteq> [])"

definition dict_get_default :: "(string \<times> string) list \<Rightarrow> string \<Rightarrow> string \<Rightarrow> string" where
  "dict_get_default d k dflt = (case map_of d k of None \<Rightarrow> dflt | Some v \<Rightarrow> v)"

text \<open>
  The network capabilities and the float formatting of the runtime are parameters.
  Every request appends to a log of calls; a response may depend on the calls made
  before it, so one provider can answer the same request differently over time.
  \<open>format_3f\<close> is the format specification \<open>:.3f\<close> and \<open>round_3\<close> is \<open>round(x, 3)\<close>.
\<close>

datatype api_call =
    EmbeddingsCreate string
  | ChatCompletionsCreate string string real

record runtime =
  embeddings_create :: "api_call list \<Rightarrow> string \<Rightarrow> py_exception + real list"
  chat_completions_create ::
    "api_call list \<Rightarrow> string \<Rightarrow> string \<Rightarrow> real \<Rightarrow> py_exception + string"
  format_3f :: "real \<Rightarrow> string"
  round_3 :: "real \<Rightarrow> real"

section \<open>ado\_vector\_store.py\<close>

subsection \<open>Vectors\<close>

text \<open>
  Embedding vectors are one-dimensional float arrays, read as lists of reals.
  \<open>np.dot\<close> of two one-dimensional arrays raises \<open>ValueError\<close> when their lengths differ;
  \<open>np.linalg.norm\<close> is the Euclidean norm. Both are read over the reals: the rounding
  of float32 arithmetic is not part of this model, and what is proved of a search holds
  for any scores.
\<close>

definition np_dot :: "real list \<Rightarrow> real list \<Rightarrow> py_exception + real" where
  "np_dot v1 v2 =
     (if length v1 \<noteq> length v2 then Inl (ValueError ''shapes not aligned'')
      else Inr (\<Sum>(x, y)\<leftarrow>zip v1 v2. x * y))"

definition np_linalg_norm :: "real list \<Rightarrow> real" where
  "np_linalg_norm v = sqrt (\<Sum>x\<leftarrow>v. x * x)"

definition cosine_similarity :: "real list \<Rightarrow> real list \<Rightarrow> py_exception + real" where
  "cosine_similarity vec1 vec2 =
     (case np_dot vec1 vec2 of
        Inl e \<Rightarrow> Inl e
      | Inr dot_product \<Rightarrow>
          (let norm1 = np_linalg_norm vec1; norm2 = np_linalg_norm vec2
           in if norm1 = 0 \<or> norm2 = 0 then Inr 0
              else Inr (dot_product / (norm1 * norm2))))"

subsection \<open>The store\<close>

text \<open>
  A chunk's metadata entry; an item of the embeddings file is such an entry with an
  \<open>embedding\<close> (\<open>None\<close> when the key is absent); a search result is such an entry with
  the row \<open>index\<close> and the \<open>similarity\<close>. Metadata values are read as strings.
\<close>

record chunk_meta =
  chunk_id :: string
  content :: string
  workitem_id :: json_id
  metadata :: "(string \<times> string) list"

record embedding_item = chunk_meta +
  embedding :: "real list option"

record search_result = chunk_meta +
  index :: nat
  similarity :: real

record vector_store =
  embeddings_data :: "embedding_item list"
  embeddings_matrix :: "real list list option"
  chunk_metadata :: "chunk_meta list"

definition new_vector_store :: vector_store where
  "new_vector_store = \<lparr>embeddings_data = [], embeddings_matrix = None, chunk_metadata = []\<rparr>"

text \<open>\<open>'embedding' in item and item['embedding']\<close>: present and not empty.\<close>

definition has_embedding :: "embedding_item \<Rightarrow> bool" where
  "has_embedding item = (case embedding item of None \<Rightarrow> False | Some v \<Rightarrow> v \<noteq> [])"

definition embedding_of :: "embedding_item \<Rightarrow> real list" where
  "embedding_of item = (case embedding item of None \<Rightarrow> [] | Some v \<Rightarrow> v)"

definition meta_of :: "embedding_item \<Rightarrow> chunk_meta" where
  "meta_of item =
     \<lparr>chunk_id = chunk_id item, content = content item,
      workitem_id = workitem_id item, metadata = metadata item\<rparr>"

text \<open>\<open>np.array(rows, dtype=np.float32)\<close> raises for rows of different lengths.\<close>

definition np_array :: "real list list \<Rightarrow> py_exception + real list list" where
  "np_array rows =
     (if list_all (\<lambda>r. length r = length (hd rows)) rows then Inr rows
      else Inl (ValueError ''inhomogeneous shape''))"

text \<open>
  \<open>load_embeddings\<close>, from the content of the embeddings file (\<open>None\<close>: the file does not
  exist or cannot be read). Every exception inside is caught and leaves the matrix unset.
\<close>

definition load_embeddings :: "embedding_item list option \<Rightarrow> vector_store" where
  "load_embeddings file =
     (case file of
        None \<Rightarrow> new_vector_store
      | Some data \<Rightarrow>
          if data = [] then new_vector_store
          else
            (let valid = filter has_embedding data;
                 embeddings_list = map embedding_of valid;
                 metadata_list = map meta_of valid
             in if embeddings_list \<noteq> [] then
                  (case np_array embeddings_list of
                     Inl e \<Rightarrow> new_vector_store\<lparr>embeddings_data := data\<rparr>
                   | Inr matrix \<Rightarrow>
                       \<lparr>embeddings_data = data, embeddings_matrix = Some matrix,
                        chunk_metadata = metadata_list\<rparr>)
                else new_vector_store\<lparr>embeddings_data := data\<rparr>))"

text \<open>
  \<open>get_query_embedding\<close>: an empty query makes no request; every exception of the
  request is caught and gives \<open>None\<close>.
\<close>

definition get_query_embedding ::
  "runtime \<Rightarrow> api_call list \<Rightarrow> string \<Rightarrow> real list option \<times> api_call list" where
  "get_query_embedding rt calls query0 =
     (let query = py_strip (replace_newlines query0)
      in if query = [] then (None, calls)
         else (case embeddings_create rt calls query of
                 Inr v \<Rightarrow> (Some v, calls @ [EmbeddingsCreate query])
               | Inl e \<Rightarrow> (None, calls @ [EmbeddingsCreate query])))"

text \<open>\<open>if workitem_filter:\<close> holds for a list that is given and not empty.\<close>

definition filter_given :: "string list option \<Rightarrow> bool" where
  "filter_given workitem_filter =
     (case workitem_filter of None \<Rightarrow> False | Some ids \<Rightarrow> ids \<noteq> [])"

definition filter_ids :: "string list option \<Rightarrow> string list" where
  "filter_ids workitem_filter = (case workitem_filter of None \<Rightarrow> [] | Some ids \<Rightarrow> ids)"

text \<open>One iteration of the loop over the rows: nothing, one result, or an exception.\<close>

definition search_row ::
  "chunk_meta list \<Rightarrow> real list \<Rightarrow> real \<Rightarrow> string list option \<Rightarrow> nat \<times> real list
    \<Rightarrow> py_exception + search_result list" where
  "search_row md query_embedding similarity_threshold workitem_filter row =
     (case cosine_similarity query_embedding (snd row) of
        Inl e \<Rightarrow> Inl e
      | Inr sim \<Rightarrow>
          (case (if filter_given workitem_filter then
                   (case list_get md (fst row) of
                      Inl e \<Rightarrow> Inl e
                    | Inr m \<Rightarrow>
                        Inr (py_str (workitem_id m) \<notin> set (filter_ids workitem_filter)))
                 else Inr False) of
             Inl e \<Rightarrow> Inl e
           | Inr skip \<Rightarrow>
               if skip then Inr []
               else if sim \<ge> similarity_threshold then
                 (case list_get md (fst row) of
                    Inl e \<Rightarrow> Inl e
                  | Inr m \<Rightarrow>
                      Inr [\<lparr>chunk_id = chunk_id m, content = content m,
                            workitem_id = workitem_id m, metadata = metadata m,
                            index = fst row, similarity = sim\<rparr>])
               else Inr []))"

fun search_rows ::
  "chunk_meta list \<Rightarrow> real list \<Rightarrow> real \<Rightarrow> string list option \<Rightarrow> (nat \<times> real list) list
    \<Rightarrow> py_exception + search_result list" where
  "search_rows md q t f [] = Inr []"
| "search_rows md q t f (row # rows) =
     (case search_row md q t f row of
        Inl e \<Rightarrow> Inl e
      | Inr found \<Rightarrow>
          (case search_rows md q t f rows of
             Inl e \<Rightarrow> Inl e
           | Inr rest \<Rightarrow> Inr (found @ rest)))"

definition similarity_search ::
  "runtime \<Rightarrow> vector_store \<Rightarrow> api_call list \<Rightarrow> string \<Rightarrow> int \<Rightarrow> real \<Rightarrow> string list option
    \<Rightarrow> (py_exception + search_result list) \<times> api_call list" where
  "similarity_search rt store calls query top_k similarity_threshold workitem_filter =
     (case embeddings_matrix store of
        None \<Rightarrow> (Inr [], calls)
      | Some matrix \<Rightarrow>
          if length (chunk_metadata store) = 0 then (Inr [], calls)
          else
            (case get_query_embedding rt calls query of
               (None, calls') \<Rightarrow> (Inr [], calls')
             | (Some query_embedding, calls') \<Rightarrow>
                 (case search_rows (chunk_metadata store) query_embedding
                         similarity_threshold workitem_filter (enumerate 0 matrix) of
                    Inl e \<Rightarrow> (Inl e, calls')
                  | Inr similarities \<Rightarrow>
                      (Inr (py_slice_to (py_sort_reverse similarity similarities) top_k),
                       calls'))))"

subsection \<open>Aggregation by work item\<close>

datatype relevant_chunk =
  RelevantChunk (rc_chunk_id: string) (rc_content: string) (rc_similarity: real)

record workitem_result =
  wr_workitem_id :: string
  max_similarity :: real
  avg_similarity :: real
  chunk_count :: nat
  relevant_chunks :: "relevant_chunk list"

text \<open>
  The body of the grouping loop: a new key gets empty lists in both dictionaries, then
  the score and the chunk are appended to the lists of the key.
\<close>

definition dict_append ::
  "(string \<times> 'v list) list \<Rightarrow> string \<Rightarrow> 'v \<Rightarrow> py_exception + (string \<times> 'v list) list" where
  "dict_append d k x =
     (case dict_getitem d k of Inl e \<Rightarrow> Inl e | Inr vs \<Rightarrow> Inr (dict_set d k (vs @ [x])))"

definition group_result ::
  "search_result
    \<Rightarrow> (string \<times> real list) list \<times> (string \<times> relevant_chunk list) list
    \<Rightarrow> py_exception + ((string \<times> real list) list \<times> (string \<times> relevant_chunk list) list)" where
  "group_result result dicts =
     (let workitem_id' = py_str (workitem_id result);
          similarity' = similarity result;
          workitem_scores = (if map_of (fst dicts) workitem_id' = None
                             then dict_set (fst dicts) workitem_id' [] else fst dicts);
          workitem_contents = (if map_of (fst dicts) workitem_id' = None
                               then dict_set (snd dicts) workitem_id' [] else snd dicts)
      in case dict_append workitem_scores workitem_id' similarity' of
           Inl e \<Rightarrow> Inl e
         | Inr scores' \<Rightarrow>
             (case dict_append workitem_contents workitem_id'
                     (RelevantChunk (chunk_id result) (content result) similarity') of
                Inl e \<Rightarrow> Inl e
              | Inr contents' \<Rightarrow> Inr (scores', contents')))"

fun group_results ::
  "search_result list
    \<Rightarrow> (string \<times> real list) list \<times> (string \<times> relevant_chunk list) list
    \<Rightarrow> py_exception + ((string \<times> real list) list \<times> (string \<times> relevant_chunk list) list)" where
  "group_results [] dicts = Inr dicts"
| "group_results (result # results) dicts =
     (case group_result result dicts of
        Inl e \<Rightarrow> Inl e
      | Inr dicts' \<Rightarrow> group_results results dicts')"

text \<open>One iteration of the loop over \<open>workitem_scores.items()\<close>.\<close>

definition aggregate_workitem ::
  "float_ops \<Rightarrow> (string \<times> relevant_chunk list) list \<Rightarrow> string \<times> real list
    \<Rightarrow> py_exception + workitem_result" where
  "aggregate_workitem fl workitem_contents item =
     (case py_max (snd item) of
        Inl e \<Rightarrow> Inl e
      | Inr max_score \<Rightarrow>
          (case float_mean fl (snd item) of
             Inl e \<Rightarrow> Inl e
           | Inr avg_score \<Rightarrow>
               (case dict_getitem workitem_contents (fst item) of
                  Inl e \<Rightarrow> Inl e
                | Inr chunks \<Rightarrow>
                    Inr \<lparr>wr_workitem_id = fst item, max_similarity = max_score,
                         avg_similarity = avg_score, chunk_count = length (snd item),
                         relevant_chunks = chunks\<rparr>)))"

fun aggregate_workitems ::
  "float_ops \<Rightarrow> (string \<times> relevant_chunk list) list \<Rightarrow> (string \<times> real list) list
    \<Rightarrow> py_exception + workitem_result list" where
  "aggregate_workitems fl workitem_contents [] = Inr []"
| "aggregate_workitems fl workitem_contents (item # items) =
     (case aggregate_workitem fl workitem_contents item of
        Inl e \<Rightarrow> Inl e
      | Inr r \<Rightarrow>
          (case aggregate_workitems fl workitem_contents items of
             Inl e \<Rightarrow> Inl e
           | Inr rs \<Rightarrow> Inr (r # rs)))"

text \<open>
  The part of \<open>get_related_workitems\<close> after the search: group, aggregate, sort by
  \<open>(max_similarity, avg_similarity)\<close> in reverse, and keep \<open>workitem_results[:top_k]\<close>.
\<close>

definition rank_workitems ::
  "float_ops \<Rightarrow> search_result list \<Rightarrow> int \<Rightarrow> py_exception + workitem_result list" where
  "rank_workitems fl all_results top_k =
     (case group_results all_results ([], []) of
        Inl e \<Rightarrow> Inl e
      | Inr dicts \<Rightarrow>
          (case aggregate_workitems fl (snd dicts) (fst dicts) of
             Inl e \<Rightarrow> Inl e
           | Inr workitem_results \<Rightarrow>
               Inr (py_slice_to
                      (py_sort_reverse (\<lambda>x. (max_similarity x, avg_similarity x))
                         workitem_results)
                      top_k)))"

definition get_related_workitems ::
  "runtime \<Rightarrow> float_ops \<Rightarrow> vector_store \<Rightarrow> api_call list \<Rightarrow> string \<Rightarrow> int
    \<Rightarrow> (py_exception + workitem_result list) \<times> api_call list" where
  "get_related_workitems rt fl store calls query top_k =
     (case similarity_search rt store calls query 50 0 None of
        (Inl e, calls') \<Rightarrow> (Inl e, calls')
      | (Inr all_results, calls') \<Rightarrow> (rank_workitems fl all_results top_k, calls'))"

section \<open>ado\_qa\_system.py\<close>

text \<open>
  A formatted source; the four metadata fields are present only when the chunk has
  metadata. The answer package; \<open>num_sources\<close> is present only in a normal answer.
\<close>

record source_info =
  src_workitem_id :: json_id
  src_chunk_id :: string
  src_similarity :: real
  content_preview :: string
  src_fields :: "(string \<times> string) list"

record answer_result =
  answer :: string
  sources :: "source_info list"
  confidence :: string
  query :: string
  num_sources :: "nat option"

definition metadata_line :: "(string \<times> string) list \<Rightarrow> string \<Rightarrow> string \<Rightarrow> string" where
  "metadata_line md key label =
     (if dict_get_truthy md key then label @ '': '' @ dict_get_default md key [] @ nl else [])"

definition context_entry :: "runtime \<Rightarrow> bool \<Rightarrow> nat \<times> search_result \<Rightarrow> string" where
  "context_entry rt include_metadata ic =
     (let i = fst ic; chunk = snd ic
      in nl @ ''--- Work Item Context '' @ str_nat (i + 1) @ '' (Similarity: ''
           @ format_3f rt (similarity chunk) @ '') ---'' @ nl
         @ ''Work Item ID: '' @ py_str (workitem_id chunk) @ nl
         @ ''Chunk ID: '' @ chunk_id chunk @ nl
         @ (if include_metadata \<and> metadata chunk \<noteq> [] then
              metadata_line (metadata chunk) ''title'' ''Title''
              @ metadata_line (metadata chunk) ''state'' ''State''
              @ metadata_line (metadata chunk) ''type'' ''Type''
              @ metadata_line (metadata chunk) ''assigned_to'' ''Assigned To''
              @ metadata_line (metadata chunk) ''priority'' ''Priority''
              @ metadata_line (metadata chunk) ''area_path'' ''Area Path''
            else [])
         @ ''Content:'' @ nl @ content chunk @ nl
         @ concat (replicate 20 ''---'') @ nl)"

definition build_context_string :: "runtime \<Rightarrow> search_result list \<Rightarrow> bool \<Rightarrow> string" where
  "build_context_string rt chunks include_metadata =
     concat (map (context_entry rt include_metadata) (enumerate 0 chunks))"

definition system_message :: string where
  "system_message =
     ''You are an expert Azure DevOps assistant specializing in work item analysis and project management. ''
     @ ''Your task is to answer questions about Azure DevOps work items based on the provided context. ''
     @ nl @ ''Guidelines:'' @ nl
     @ ''- Use ONLY the information provided in the '' @ [CHR 0x27] @ ''Context'' @ [CHR 0x27]
     @ '' section to formulate your answer'' @ nl
     @ ''- If the information is not available in the context, clearly state that you don''
     @ [CHR 0x27] @ ''t know'' @ nl
     @ ''- Provide clear, concise, and actionable answers'' @ nl
     @ ''- Reference specific work item IDs when relevant'' @ nl
     @ ''- Include work item states, assignees, types, and priorities when helpful'' @ nl
     @ ''- If asked about status or progress, summarize based on work item states'' @ nl
     @ ''- For troubleshooting questions, focus on error descriptions and solutions mentioned'' @ nl
     @ ''- Organize your response with clear structure (bullet points, numbered lists when appropriate)'' @ nl
     @ ''- If multiple work items are relevant, group or categorize them logically'' @ nl
     @ ''- Always maintain a professional and helpful tone'' @ nl
     @ ''- When citing work items, format them as '' @ [CHR 0x27] @ ''Work Item #[ID]''
     @ [CHR 0x27] @ '' for clarity''"

definition user_message :: "string \<Rightarrow> string \<Rightarrow> string" where
  "user_message query' context =
     ''Context:'' @ nl @ context @ nl @ nl @ ''User Question: '' @ query' @ nl @ nl @ ''Answer:''"

text \<open>The four \<open>except\<close> clauses of \<open>_generate_response\<close>, in their order.\<close>

fun generation_error_text :: "py_exception \<Rightarrow> string" where
  "generation_error_text (APIConnectionError m) =
     ''Connection error to GPT model: '' @ m @ ''. Check your endpoint and network.''"
| "generation_error_text (RateLimitError m) =
     ''Rate limit exceeded for GPT model: '' @ m @ ''. Please wait and try again.''"
| "generation_error_text (APIStatusError m status_code response) =
     ''Azure OpenAI GPT API error: '' @ str_int status_code @ '' - '' @ response
       @ ''. Check your model deployment name.''"
| "generation_error_text e =
     ''An unexpected error occurred during response generation: '' @ exception_str e"

definition generate_response ::
  "runtime \<Rightarrow> api_call list \<Rightarrow> string \<Rightarrow> string \<Rightarrow> real \<Rightarrow> string \<times> api_call list" where
  "generate_response rt calls query' context temperature =
     (let request = ChatCompletionsCreate system_message (user_message query' context) temperature
      in case chat_completions_create rt calls system_message (user_message query' context)
                temperature of
           Inr response \<Rightarrow> (response, calls @ [request])
         | Inl e \<Rightarrow> (generation_error_text e, calls @ [request]))"

definition calculate_confidence :: "search_result list \<Rightarrow> py_exception + string" where
  "calculate_confidence chunks =
     (if chunks = [] then Inr ''low''
      else
        (case py_max (map similarity chunks) of
           Inl e \<Rightarrow> Inl e
         | Inr max_similarity' \<Rightarrow>
             (case py_mean (map similarity chunks) of
                Inl e \<Rightarrow> Inl e
              | Inr avg_similarity' \<Rightarrow>
                  if max_similarity' \<ge> 8 / 10 \<and> avg_similarity' \<ge> 6 / 10 then Inr ''high''
                  else if max_similarity' \<ge> 6 / 10 \<and> avg_similarity' \<ge> 4 / 10 then Inr ''medium''
                  else Inr ''low'')))"

definition format_source :: "runtime \<Rightarrow> search_result \<Rightarrow> source_info" where
  "format_source rt chunk =
     \<lparr>src_workitem_id = workitem_id chunk,
      src_chunk_id = chunk_id chunk,
      src_similarity = round_3 rt (similarity chunk),
      content_preview = (if length (content chunk) > 200 then take 200 (content chunk) @ ''...''
                         else content chunk),
      src_fields = (if metadata chunk \<noteq> [] then
                      [(''title'', dict_get_default (metadata chunk) ''title'' ''N/A''),
                       (''state'', dict_get_default (metadata chunk) ''state'' ''N/A''),
                       (''type'', dict_get_default (metadata chunk) ''type'' ''N/A''),
                       (''assigned_to'', dict_get_default (metadata chunk) ''assigned_to'' ''N/A'')]
                    else [])\<rparr>"

definition format_sources :: "runtime \<Rightarrow> search_result list \<Rightarrow> source_info list" where
  "format_sources rt chunks = map (format_source rt) chunks"

definition not_found_answer :: string where
  "not_found_answer =
     ''I couldn'' @ [CHR 0x27] @ ''t find any relevant work items for your question. ''
     @ ''Please try rephrasing your query or check if the work item data has been properly indexed.''"

text \<open>The body of the \<open>try\<close> block of \<open>answer_question\<close>, and the function with its handler.\<close>

definition answer_question_try ::
  "runtime \<Rightarrow> vector_store \<Rightarrow> api_call list \<Rightarrow> string \<Rightarrow> int \<Rightarrow> real \<Rightarrow> bool \<Rightarrow> real
    \<Rightarrow> (py_exception + answer_result) \<times> api_call list" where
  "answer_question_try rt store calls query' top_k similarity_threshold include_metadata temperature =
     (case similarity_search rt store calls query' top_k similarity_threshold None of
        (Inl e, calls1) \<Rightarrow> (Inl e, calls1)
      | (Inr retrieved_chunks, calls1) \<Rightarrow>
          if retrieved_chunks = [] then
            (Inr \<lparr>answer = not_found_answer, sources = [], confidence = ''low'',
                  query = query', num_sources = None\<rparr>, calls1)
          else
            (let context_str = build_context_string rt retrieved_chunks include_metadata;
                 generated = generate_response rt calls1 query' context_str temperature
             in case calculate_confidence retrieved_chunks of
                  Inl e \<Rightarrow> (Inl e, snd generated)
                | Inr confidence' \<Rightarrow>
                    (Inr \<lparr>answer = fst generated,
                          sources = format_sources rt retrieved_chunks,
                          confidence = confidence',
                          query = query',
                          num_sources = Some (length retrieved_chunks)\<rparr>,
                     snd generated)))"

definition answer_question ::
  "runtime \<Rightarrow> vector_store \<Rightarrow> api_call list \<Rightarrow> string \<Rightarrow> int \<Rightarrow> real \<Rightarrow> bool \<Rightarrow> real
    \<Rightarrow> answer_result \<times> api_call list" where
  "answer_question rt store calls query' top_k similarity_threshold include_metadata temperature =
     (case answer_question_try rt store calls query' top_k similarity_threshold include_metadata
             temperature of
        (Inr result, calls') \<Rightarrow> (result, calls')
      | (Inl e, calls') \<Rightarrow>
          (\<lparr>answer = ''An error occurred while processing your question: '' @ exception_str e,
            sources = [], confidence = ''error'', query = query', num_sources = None\<rparr>,
           calls'))"

text \<open>\<open>batch_answer_questions\<close> calls \<open>answer_question\<close> with its default arguments.\<close>

fun batch_answer_questions ::
  "runtime \<Rightarrow> vector_store \<Rightarrow> api_call list \<Rightarrow> string list
    \<Rightarrow> answer_result list \<times> api_call list" where
  "batch_answer_questions rt store calls [] = ([], calls)"
| "batch_answer_questions rt store calls (question # questions) =
     (let answered = answer_question rt store calls question 5 (3 / 10) True (2 / 10);
          remaining = batch_answer_questions rt store (snd answered) questions
      in (fst answered # fst remaining, snd remaining))"

section \<open>embedding.py\<close>

text \<open>
  \<open>get_text_embedding\<close>: an empty text makes no request; every exception of the request
  is caught and gives \<open>None\<close>. The pauses (\<open>time.sleep\<close>) are not modelled.
\<close>

definition get_text_embedding ::
  "runtime \<Rightarrow> api_call list \<Rightarrow> string \<Rightarrow> real list option \<times> api_call list" where
  "get_text_embedding rt calls text0 =
     (let text = py_strip (replace_newlines text0)
      in if text = [] then (None, calls)
         else (case embeddings_create rt calls text of
                 Inr v \<Rightarrow> (Some v, calls @ [EmbeddingsCreate text])
               | Inl e \<Rightarrow> (None, calls @ [EmbeddingsCreate text])))"

text \<open>The loop \<open>for attempt in range(max_retries)\<close>, by the attempts that remain.\<close>

fun retry_attempts ::
  "runtime \<Rightarrow> api_call list \<Rightarrow> string \<Rightarrow> nat \<Rightarrow> real list option \<times> api_call list" where
  "retry_attempts rt calls text 0 = (None, calls)"
| "retry_attempts rt calls text (Suc remaining) =
     (case get_text_embedding rt calls text of
        (Some v, calls') \<Rightarrow> (Some v, calls')
      | (None, calls') \<Rightarrow> retry_attempts rt calls' text remaining)"

definition generate_embeddings_with_retry ::
  "runtime \<Rightarrow> api_call list \<Rightarrow> string \<Rightarrow> int \<Rightarrow> real list option \<times> api_call list" where
  "generate_embeddings_with_retry rt calls text max_retries =
     retry_attempts rt calls text (nat max_retries)"

fun generate_embeddings_for_chunks ::
  "runtime \<Rightarrow> api_call list \<Rightarrow> chunk_meta list \<Rightarrow> embedding_item list \<times> api_call list" where
  "generate_embeddings_for_chunks rt calls [] = ([], calls)"
| "generate_embeddings_for_chunks rt calls (chunk # chunks) =
     (case generate_embeddings_with_retry rt calls (content chunk) 3 of
        (Some v, calls') \<Rightarrow>
          (let rest = generate_embeddings_for_chunks rt calls' chunks
           in (\<lparr>chunk_id = chunk_id chunk, content = content chunk,
                 workitem_id = workitem_id chunk, metadata = metadata chunk,
                 embedding = Some v\<rparr> # fst rest, snd rest))
      | (None, calls') \<Rightarrow> generate_embeddings_for_chunks rt calls' chunks)"

text \<open>
  \<open>load_existing_embeddings\<close>, from the content of the output file (\<open>None\<close>: the file does
  not exist or cannot be read): a dictionary from chunk id to item.
\<close>

definition load_existing_embeddings ::
  "embedding_item list option \<Rightarrow> (string \<times> embedding_item) list" where
  "load_existing_embeddings output_file =
     (case output_file of
        None \<Rightarrow> []
      | Some existing_data \<Rightarrow>
          fold (\<lambda>item existing_embeddings. dict_set existing_embeddings (chunk_id item) item)
            existing_data [])"

text \<open>
  \<open>main\<close>, from the content of the input file (\<open>None\<close>: missing or unreadable), whether
  the environment variables are set, and the content of the output file; it returns the
  content of the output file afterwards.
\<close>

definition embedding_main ::
  "runtime \<Rightarrow> api_call list \<Rightarrow> chunk_meta list option \<Rightarrow> bool \<Rightarrow> embedding_item list option
    \<Rightarrow> embedding_item list option \<times> api_call list" where
  "embedding_main rt calls input_file env_set output_file =
     (case input_file of
        None \<Rightarrow> (output_file, calls)
      | Some chunks \<Rightarrow>
          if \<not> env_set then (output_file, calls)
          else
            (let existing_embeddings = load_existing_embeddings output_file;
                 new_chunks = filter (\<lambda>chunk. map_of existing_embeddings (chunk_id chunk) = None)
                                chunks
             in if new_chunks = [] then (output_file, calls)
                else
                  (let generated = generate_embeddings_for_chunks rt calls new_chunks;
                       all_embeddings_data = map snd existing_embeddings @ fst generated
                   in (Some all_embeddings_data, snd generated))))"

section \<open>chunker.py\<close>

text \<open>
  The tokenizer is the tiktoken encoding the splitter obtains from \<open>get_tokenizer\<close>; the
  library is not part of the sources, so it is a parameter: \<open>encode\<close> from text to tokens
  and \<open>decode\<close> from tokens to text, both total. The splitter only counts, slices and
  decodes tokens, so the type of a token is left open.
\<close>

record 't tokenizer =
  encode :: "string \<Rightarrow> 't list"
  decode :: "'t list \<Rightarrow> string"

record 't splitter =
  chunk_size :: int
  chunk_overlap :: int
  separators :: "string list"
  tokenizer :: "'t tokenizer"

definition default_separators :: "string list" where
  "default_separators = [nl @ nl, nl, '' '', [], []]"

text \<open>\<open>__init__\<close>: \<open>separators or [...]\<close> replaces \<open>None\<close> and the empty list by the default.\<close>

definition init_splitter ::
  "'t tokenizer \<Rightarrow> int \<Rightarrow> int \<Rightarrow> string list option \<Rightarrow> 't splitter" where
  "init_splitter tok chunk_size0 chunk_overlap0 seps =
     \<lparr>chunk_size = chunk_size0, chunk_overlap = chunk_overlap0,
      separators = (case seps of
                      None \<Rightarrow> default_separators
                    | Some ss \<Rightarrow> if ss = [] then default_separators else ss),
      tokenizer = tok\<rparr>"

text \<open>\<open>len(self.tokenizer.encode(s))\<close>.\<close>

definition token_count :: "'t splitter \<Rightarrow> string \<Rightarrow> int" where
  "token_count sp s = int (length (encode (tokenizer sp) s))"

text \<open>
  The two hard slices: \<open>text[i:i + chunk_size]\<close> and the decoded
  \<open>tokens[i:i + chunk_size]\<close> for \<open>i\<close> in \<open>range(0, len, chunk_size - chunk_overlap)\<close>.
\<close>

definition char_windows :: "'t splitter \<Rightarrow> string \<Rightarrow> py_exception + string list" where
  "char_windows sp text =
     (case py_range (int (length text)) (chunk_size sp - chunk_overlap sp) of
        Inl e \<Rightarrow> Inl e
      | Inr starts \<Rightarrow> Inr (map (\<lambda>i. py_slice text i (i + chunk_size sp)) starts))"

definition token_windows :: "'t splitter \<Rightarrow> 't list \<Rightarrow> py_exception + string list" where
  "token_windows sp tokens =
     (case py_range (int (length tokens)) (chunk_size sp - chunk_overlap sp) of
        Inl e \<Rightarrow> Inl e
      | Inr starts \<Rightarrow>
          Inr (map (\<lambda>i. decode (tokenizer sp) (py_slice tokens i (i + chunk_size sp))) starts))"

text \<open>
  The loop over the parts of \<open>text.split(current_separator)\<close>; \<open>split_rest\<close> is the
  recursive call \<open>self._split_text(part, other_separators)\<close>.
\<close>

fun pack_parts ::
  "'t splitter \<Rightarrow> string \<Rightarrow> (string \<Rightarrow> py_exception + string list) \<Rightarrow> string list
    \<Rightarrow> string list \<Rightarrow> py_exception + string list" where
  "pack_parts sp current_separator split_rest [] chunks = Inr chunks"
| "pack_parts sp current_separator split_rest (part # parts) chunks =
     (if part = [] then pack_parts sp current_separator split_rest parts chunks
      else if token_count sp part > chunk_size sp then
        (case split_rest part of
           Inl e \<Rightarrow> Inl e
         | Inr sub_chunks \<Rightarrow>
             pack_parts sp current_separator split_rest parts (chunks @ sub_chunks))
      else if chunks = []
              \<or> token_count sp (last chunks @ current_separator @ part) > chunk_size sp then
        pack_parts sp current_separator split_rest parts (chunks @ [part])
      else
        (let last_chunk_tokens = encode (tokenizer sp) (last chunks);
             part_tokens = encode (tokenizer sp) part
         in if int (length last_chunk_tokens) + int (length part_tokens)
                 + token_count sp current_separator \<le> chunk_size sp then
              pack_parts sp current_separator split_rest parts
                (butlast chunks @ [last chunks @ current_separator @ part])
            else
              (let overlap_text =
                     decode (tokenizer sp) (py_slice_from last_chunk_tokens (- chunk_overlap sp))
               in if token_count sp (overlap_text @ current_separator @ part) \<le> chunk_size sp then
                    pack_parts sp current_separator split_rest parts
                      (chunks @ [overlap_text @ current_separator @ part])
                  else pack_parts sp current_separator split_rest parts (chunks @ [part]))))"

text \<open>The loop that refines the chunks with the overlap of the previous final chunk.\<close>

fun refine_chunks :: "'t splitter \<Rightarrow> string \<Rightarrow> string list \<Rightarrow> string list \<Rightarrow> string list" where
  "refine_chunks sp current_separator [] final_chunks = final_chunks"
| "refine_chunks sp current_separator (current_chunk # chunks) final_chunks =
     (if final_chunks = [] then
        refine_chunks sp current_separator chunks (final_chunks @ [current_chunk])
      else
        (let prev_chunk_tokens = encode (tokenizer sp) (last final_chunks);
             overlap_tokens =
               py_slice_from prev_chunk_tokens
                 (max 0 (int (length prev_chunk_tokens) - chunk_overlap sp));
             overlap_text = decode (tokenizer sp) overlap_tokens;
             combined_text = (if overlap_text \<noteq> []
                              then overlap_text @ current_separator @ current_chunk
                              else current_chunk)
         in if token_count sp combined_text \<le> chunk_size sp then
              refine_chunks sp current_separator chunks (final_chunks @ [combined_text])
            else refine_chunks sp current_separator chunks (final_chunks @ [current_chunk])))"

text \<open>The final pass, which slices every chunk that still has more tokens than the size.\<close>

fun final_pass :: "'t splitter \<Rightarrow> string list \<Rightarrow> py_exception + string list" where
  "final_pass sp [] = Inr []"
| "final_pass sp (chunk # final_chunks) =
     (let tokens = encode (tokenizer sp) chunk
      in if int (length tokens) > chunk_size sp then
           (case token_windows sp tokens of
              Inl e \<Rightarrow> Inl e
            | Inr sub_chunks \<Rightarrow>
                (case final_pass sp final_chunks of
                   Inl e \<Rightarrow> Inl e
                 | Inr re_split_chunks \<Rightarrow> Inr (sub_chunks @ re_split_chunks)))
         else
           (case final_pass sp final_chunks of
              Inl e \<Rightarrow> Inl e
            | Inr re_split_chunks \<Rightarrow> Inr (chunk # re_split_chunks)))"

text \<open>\<open>_split_text\<close>; the recursion is on the list of separators.\<close>

fun split_text :: "'t splitter \<Rightarrow> string \<Rightarrow> string list \<Rightarrow> py_exception + string list" where
  "split_text sp text [] = char_windows sp text"
| "split_text sp text (current_separator # other_separators) =
     (if current_separator = [] then
        (if token_count sp text \<le> chunk_size sp then Inr [text]
         else token_windows sp (encode (tokenizer sp) text))
      else
        (case pack_parts sp current_separator (\<lambda>part. split_text sp part other_separators)
                (py_split text current_separator) [] of
           Inl e \<Rightarrow> Inl e
         | Inr chunks \<Rightarrow> final_pass sp (refine_chunks sp current_separator chunks [])))"

text \<open>
  \<open>split_document\<close>: the chunks that are not blank, stripped, each with the file path and
  the id made of the path and its position among all chunks.
\<close>

record doc_chunk =
  doc_content :: string
  doc_filepath :: string
  doc_chunk_id :: string

definition split_document ::
  "'t splitter \<Rightarrow> string \<Rightarrow> string \<Rightarrow> py_exception + doc_chunk list" where
  "split_document sp document_content filepath =
     (case split_text sp document_content (separators sp) of
        Inl e \<Rightarrow> Inl e
      | Inr chunks \<Rightarrow>
          Inr (map (\<lambda>(i, chunk_text).
                      \<lparr>doc_content = py_strip chunk_text, doc_filepath = filepath,
                       doc_chunk_id = filepath @ ''_'' @ str_nat i\<rparr>)
                 (filter (\<lambda>(i, chunk_text). py_strip chunk_text \<noteq> [])
                    (enumerate 0 chunks))))"

section \<open>Notions used in the statements\<close>

text \<open>
  The entity of a match is the string form of its work item id; \<open>matches_of\<close> selects the
  matches of one entity, in their order; \<open>chunk_of\<close> is the entry a match contributes to
  its aggregate; \<open>first_seen\<close> lists keys in the order of their first occurrence, and
  \<open>first_index\<close> is the position at which an entity first occurs among the matches.
\<close>

definition entity_of :: "search_result \<Rightarrow> string" where
  "entity_of m = py_str (workitem_id m)"

definition matches_of :: "string \<Rightarrow> search_result list \<Rightarrow> search_result list" where
  "matches_of k ms = filter (\<lambda>m. entity_of m = k) ms"

definition chunk_of :: "search_result \<Rightarrow> relevant_chunk" where
  "chunk_of m = RelevantChunk (chunk_id m) (content m) (similarity m)"

definition first_seen :: "'a list \<Rightarrow> 'a list" where
  "first_seen ks = rev (remdups (rev ks))"

definition first_index :: "search_result list \<Rightarrow> string \<Rightarrow> nat" where
  "first_index ms k = length (takeWhile (\<lambda>m. entity_of m \<noteq> k) ms)"

text \<open>
  The dictionary the grouping loop has built after the matches \<open>ms\<close>: one entry per
  entity in the order of first occurrence, holding what its matches contribute.
\<close>

definition grouped :: "(search_result \<Rightarrow> 'v) \<Rightarrow> search_result list \<Rightarrow> (string \<times> 'v list) list" where
  "grouped g ms = map (\<lambda>k. (k, map g (matches_of k ms))) (first_seen (map entity_of ms))"

text \<open>
  The aggregate of one entity among the matches \<open>ms\<close>: the maximum of the scores of its
  matches and their mean as the float arithmetic computes it.
\<close>

definition aggregate_of :: "float_ops \<Rightarrow> search_result list \<Rightarrow> string \<Rightarrow> workitem_result" where
  "aggregate_of fl ms k =
     \<lparr>wr_workitem_id = k,
      max_similarity = Max (similarity ` set (matches_of k ms)),
      avg_similarity = float_div fl (float_sum fl (map similarity (matches_of k ms)))
                         (real (length (matches_of k ms))),
      chunk_count = length (matches_of k ms),
      relevant_chunks = map chunk_of (matches_of k ms)\<rparr>"

section \<open>Example data\<close>

text \<open>A small runtime, embeddings file, arithmetic and tokenizers on which the theorems are
  instantiated.\<close>

definition example_runtime :: runtime where
  "example_runtime =
     \<lparr>embeddings_create = (\<lambda>calls text. Inr [1, 0]),
      chat_completions_create = (\<lambda>calls system_message user_message temperature. Inr ''ok''),
      format_3f = (\<lambda>x. ''0.000''),
      round_3 = (\<lambda>x. x)\<rparr>"

definition example_item :: "string \<Rightarrow> int \<Rightarrow> real list \<Rightarrow> embedding_item" where
  "example_item cid wid v =
     \<lparr>chunk_id = cid, content = ''text'', workitem_id = IdInt wid, metadata = [],
      embedding = Some v\<rparr>"

definition example_file :: "embedding_item list" where
  "example_file =
     [example_item ''a'' 1 [1, 0], example_item ''b'' 1 [0, 1], example_item ''c'' 2 [1, 0]]"

definition example_match :: "string \<Rightarrow> int \<Rightarrow> nat \<Rightarrow> real \<Rightarrow> search_result" where
  "example_match cid wid i sim =
     \<lparr>chunk_id = cid, content = ''text'', workitem_id = IdInt wid, metadata = [],
      index = i, similarity = sim\<rparr>"

definition failing_runtime :: runtime where
  "failing_runtime =
     \<lparr>embeddings_create = (\<lambda>calls text. Inr [1, 0]),
      chat_completions_create =
        (\<lambda>calls system_message user_message temperature. Inl (APIConnectionError ''down'')),
      format_3f = (\<lambda>x. ''0.000''),
      round_3 = (\<lambda>x. x)\<rparr>"

definition flaky_runtime :: runtime where
  "flaky_runtime =
     \<lparr>embeddings_create =
        (\<lambda>calls text. if text = ''bad'' then Inl (APIConnectionError ''down'') else Inr [1, 0]),
      chat_completions_create = (\<lambda>calls system_message user_message temperature. Inr ''ok''),
      format_3f = (\<lambda>x. ''0.000''),
      round_3 = (\<lambda>x. x)\<rparr>"

definition example_chunk :: "string \<Rightarrow> int \<Rightarrow> chunk_meta" where
  "example_chunk cid wid =
     \<lparr>chunk_id = cid, content = ''text'', workitem_id = IdInt wid, metadata = []\<rparr>"

text \<open>
  Binary floating-point arithmetic: a real is rounded to the nearest number with \<open>p\<close>
  significant bits, ties to the even significand (the exponent is not bounded, so this is
  IEEE 754 rounding in the normal range). \<open>binary32_ops\<close> is the arithmetic of float32
  scalars: the sum adds from the left starting at zero and rounds every partial sum to 24
  bits, the quotient is rounded to 24 bits. \<open>binary64_ops\<close> is the same with the 53 bits
  of float64 scalars and of Python floats.
\<close>

definition round_half_even :: "real \<Rightarrow> int" where
  "round_half_even x =
     (let n = \<lfloor>x\<rfloor>
      in if x - of_int n < 1 / 2 then n
         else if x - of_int n > 1 / 2 then n + 1
         else if even n then n else n + 1)"

definition round_to_bits :: "nat \<Rightarrow> real \<Rightarrow> real" where
  "round_to_bits p x =
     (if x = 0 then 0
      else (let ulp = 2 powr (of_int \<lfloor>log 2 \<bar>x\<bar>\<rfloor> - real p + 1)
            in ulp * of_int (round_half_even (x / ulp))))"

definition binary32_ops :: float_ops where
  "binary32_ops =
     \<lparr>float_sum = foldl (\<lambda>s x. round_to_bits 24 (s + x)) 0,
      float_div = (\<lambda>x y. round_to_bits 24 (x / y))\<rparr>"

definition binary64_ops :: float_ops where
  "binary64_ops =
     \<lparr>float_sum = foldl (\<lambda>s x. round_to_bits 53 (s + x)) 0,
      float_div = (\<lambda>x y. round_to_bits 53 (x / y))\<rparr>"

text \<open>
  Matches of two work items, and their aggregates; three matches of one work item with
  the scores 1, 0 and 0, and their aggregate in float32 and in float64 arithmetic.
\<close>

definition example_matches :: "search_result list" where
  "example_matches =
     [example_match ''a'' 1 0 (3 / 4), example_match ''b'' 1 1 (1 / 4),
      example_match ''c'' 2 2 (1 / 2)]"

definition example_aggregate_1 :: workitem_result where
  "example_aggregate_1 =
     \<lparr>wr_workitem_id = ''1'', max_similarity = 3 / 4, avg_similarity = 1 / 2,
      chunk_count = 2,
      relevant_chunks = [RelevantChunk ''a'' ''text'' (3 / 4),
                         RelevantChunk ''b'' ''text'' (1 / 4)]\<rparr>"

definition example_aggregate_2 :: workitem_result where
  "example_aggregate_2 =
     \<lparr>wr_workitem_id = ''2'', max_similarity = 1 / 2, avg_similarity = 1 / 2,
      chunk_count = 1, relevant_chunks = [RelevantChunk ''c'' ''text'' (1 / 2)]\<rparr>"

definition example_thirds :: "search_result list" where
  "example_thirds =
     [example_match ''a'' 1 0 1, example_match ''b'' 1 1 0, example_match ''c'' 1 2 0]"

definition example_aggregate_3 :: workitem_result where
  "example_aggregate_3 =
     \<lparr>wr_workitem_id = ''1'', max_similarity = 1, avg_similarity = 11184811 / 33554432,
      chunk_count = 3,
      relevant_chunks = [RelevantChunk ''a'' ''text'' 1, RelevantChunk ''b'' ''text'' 0,
                         RelevantChunk ''c'' ''text'' 0]\<rparr>"

definition example_aggregate_4 :: workitem_result where
  "example_aggregate_4 =
     \<lparr>wr_workitem_id = ''1'', max_similarity = 1,
      avg_similarity = 6004799503160661 / 18014398509481984, chunk_count = 3,
      relevant_chunks = [RelevantChunk ''a'' ''text'' 1, RelevantChunk ''b'' ''text'' 0,
                         RelevantChunk ''c'' ''text'' 0]\<rparr>"

text \<open>
  Two tokenizers for the examples; a token is the text it stands for. The first has one
  token per character. The second is the encoding \<open>cl100k_base\<close> on a run of decimal
  digits: its pattern cuts the run into groups of three digits from the left, and every
  group of one to three digits is one token.
\<close>

definition char_tokenizer :: "char tokenizer" where
  "char_tokenizer = \<lparr>encode = (\<lambda>s. s), decode = (\<lambda>ts. ts)\<rparr>"



chapter \<open>Properties of the sources\<close>

section \<open>Sorting in reverse\<close>

lemma py_sort_reverse_set [simp]: "set (py_sort_reverse key xs) = set xs"
  by (simp add: py_sort_reverse_def)

lemma py_sort_reverse_length [simp]: "length (py_sort_reverse key xs) = length xs"
  by (simp add: py_sort_reverse_def)

lemma py_sort_reverse_descending:
  "sorted_wrt (\<lambda>a b. key b \<le> key a) (py_sort_reverse key xs)"
proof -
  have "sorted (map key (sort_key key (rev xs)))" by (rule sorted_sort_key)
  then have "sorted_wrt (\<lambda>a b. key a \<le> key b) (sort_key key (rev xs))"
    by (simp add: sorted_wrt_map)
  then show ?thesis by (simp add: py_sort_reverse_def sorted_wrt_rev)
qed

lemma py_sort_reverse_stable:
  "filter (\<lambda>x. key x = k) (py_sort_reverse key xs) = filter (\<lambda>x. key x = k) xs"
proof -
  have "filter (\<lambda>x. key x = k) (py_sort_reverse key xs)
          = rev (filter (\<lambda>x. key x = k) (sort_key key (rev xs)))"
    by (simp add: py_sort_reverse_def rev_filter)
  also have "\<dots> = rev (filter (\<lambda>x. key x = k) (rev xs))"
    by (simp only: sort_key_stable)
  also have "\<dots> = filter (\<lambda>x. key x = k) xs"
    by (simp add: rev_filter)
  finally show ?thesis .
qed

lemma sorted_wrt_ties:
  fixes key :: "'a \<Rightarrow> 'k::linorder"
  assumes "sorted_wrt (\<lambda>a b. key b \<le> key a) ys"
    and "\<And>k. sorted_wrt R (filter (\<lambda>x. key x = k) ys)"
  shows "sorted_wrt (\<lambda>a b. key b < key a \<or> (key a = key b \<and> R a b)) (ys :: 'a list)"
  using assms
proof (induction ys)
  case Nil
  show ?case by simp
next
  case (Cons y ys)
  have tail: "sorted_wrt R (filter (\<lambda>x. key x = k) ys)" for k
    using Cons.prems(2) [of k] by (cases "key y = k") simp_all
  have rest: "sorted_wrt (\<lambda>a b. key b < key a \<or> (key a = key b \<and> R a b)) ys"
    using Cons.IH Cons.prems(1) tail by simp
  have head: "key z < key y \<or> (key y = key z \<and> R y z)" if z: "z \<in> set ys" for z
  proof (cases "key z = key y")
    case True
    have "sorted_wrt R (y # filter (\<lambda>x. key x = key y) ys)"
      using Cons.prems(2) [of "key y"] by simp
    then show ?thesis using z True by auto
  next
    case False
    moreover have "key z \<le> key y" using Cons.prems(1) z by simp
    ultimately show ?thesis by simp
  qed
  show ?case using rest head by simp
qed

lemma py_sort_reverse_ties:
  assumes "sorted_wrt R xs"
  shows "sorted_wrt (\<lambda>a b. key b < key a \<or> (key a = key b \<and> R a b)) (py_sort_reverse key xs)"
proof (rule sorted_wrt_ties)
  show "sorted_wrt (\<lambda>a b. key b \<le> key a) (py_sort_reverse key xs)"
    by (rule py_sort_reverse_descending)
next
  fix k
  show "sorted_wrt R (filter (\<lambda>x. key x = k) (py_sort_reverse key xs))"
    using assms by (simp add: py_sort_reverse_stable sorted_wrt_filter)
qed

lemma py_slice_to_take: "\<exists>n. py_slice_to xs k = take n xs"
  by (auto simp: py_slice_to_def)

lemma py_slice_to_length: "0 \<le> k \<Longrightarrow> int (length (py_slice_to xs k)) \<le> k"
  by (simp add: py_slice_to_def slice_bound_def)

lemma py_slice_to_sorted_wrt: "sorted_wrt R xs \<Longrightarrow> sorted_wrt R (py_slice_to xs k)"
  by (simp add: py_slice_to_def sorted_wrt_take)

lemma py_slice_to_subset: "set (py_slice_to xs k) \<subseteq> set xs"
  by (simp add: py_slice_to_def set_take_subset)

section \<open>Dictionaries\<close>

lemma dict_set_new: "k \<notin> fst ` set d \<Longrightarrow> dict_set d k v = d @ [(k, v)]"
  by (induction d) auto

lemma dict_set_keys: "fst ` set (dict_set d k v) = insert k (fst ` set d)"
proof (induction d)
  case Nil
  show ?case by simp
next
  case (Cons p d)
  obtain k' v' where p: "p = (k', v')" by (cases p)
  show ?case unfolding p using Cons.IH by (cases "k' = k") auto
qed

lemma map_of_dict_set: "map_of (dict_set d k v) = (map_of d)(k \<mapsto> v)"
  by (induction d) (auto simp: fun_eq_iff)

lemma dict_set_distinct: "distinct (map fst d) \<Longrightarrow> distinct (map fst (dict_set d k v))"
  by (induction d) (auto simp: dict_set_keys)

section \<open>Maximum and mean\<close>

lemma py_max_Max:
  assumes "xs \<noteq> []"
  shows "py_max xs = Inr (Max (set xs))"
proof -
  from assms obtain x rest where xs: "xs = x # rest" by (cases xs) auto
  show ?thesis unfolding xs using Max.set_eq_fold [of x rest] by (simp add: py_max_def)
qed

lemma py_mean_value: "xs \<noteq> [] \<Longrightarrow> py_mean xs = Inr (sum_list xs / real (length xs))"
  by (simp add: py_mean_def)

section \<open>Similarity search\<close>

lemma search_row_cases:
  assumes "search_row md q t f row = Inr found"
  shows "found = [] \<or> (\<exists>r. found = [r] \<and> index r = fst row \<and> t \<le> similarity r
           \<and> cosine_similarity q (snd row) = Inr (similarity r)
           \<and> list_get md (fst row) = Inr (chunk_meta.truncate r))"
  using assms
  by (auto simp: search_row_def chunk_meta.truncate_def
      split: sum.splits if_splits)

lemma search_rows_results:
  assumes "search_rows md q t f rows = Inr rs"
  shows "(\<forall>r\<in>set rs. t \<le> similarity r \<and> index r \<in> fst ` set rows)
         \<and> (sorted_wrt (<) (map fst rows) \<longrightarrow> sorted_wrt (\<lambda>a b. index a < index b) rs)"
  using assms
proof (induction rows arbitrary: rs)
  case Nil
  then show ?case by simp
next
  case (Cons row rows)
  from Cons.prems obtain found rest where
    found: "search_row md q t f row = Inr found" and
    rest: "search_rows md q t f rows = Inr rest" and rs: "rs = found @ rest"
    by (auto split: sum.splits)
  note ih = Cons.IH [OF rest]
  from search_row_cases [OF found] show ?case
  proof
    assume "found = []"
    then show ?thesis using ih rs by auto
  next
    assume "\<exists>r. found = [r] \<and> index r = fst row \<and> t \<le> similarity r
           \<and> cosine_similarity q (snd row) = Inr (similarity r)
           \<and> list_get md (fst row) = Inr (chunk_meta.truncate r)"
    then obtain r where r: "found = [r]" "index r = fst row" "t \<le> similarity r" by blast
    have "fst row < index x" if "x \<in> set rest" and "sorted_wrt (<) (map fst (row # rows))" for x
    proof -
      from ih that(1) obtain y where "y \<in> set rows" "index x = fst y" by auto
      then show ?thesis using that(2) by auto
    qed
    then show ?thesis using ih rs r by (auto simp: image_iff)
  qed
qed

lemma sorted_enumerate: "sorted_wrt (<) (map fst (enumerate n xs))"
  by (simp add: sorted_wrt_iff_nth_less)

lemma sorted_wrt_tie_order:
  assumes "sorted_wrt (\<lambda>a b. key b < key a \<or> (key a = key b \<and> idx a < idx b)) ms"
    and "i < j" and "j < length ms"
  shows "key (ms ! j) \<le> (key (ms ! i) :: 'k::linorder)
         \<and> (key (ms ! i) = key (ms ! j) \<longrightarrow> idx (ms ! i) < (idx (ms ! j) :: nat))"
  using sorted_wrt_nth_less [OF assms] by auto

lemma search_row_total:
  assumes "length (snd row) = length q" and "fst row < length md"
  shows "\<exists>found. search_row md q t f row = Inr found"
  using assms
  by (simp add: search_row_def cosine_similarity_def np_dot_def list_get_def Let_def)

lemma search_rows_total:
  assumes "\<forall>row\<in>set rows. length (snd row) = length q \<and> fst row < length md"
  shows "\<exists>rs. search_rows md q t f rows = Inr rs"
  using assms
proof (induction rows)
  case Nil
  show ?case by simp
next
  case (Cons row rows)
  then obtain found rs where "search_row md q t f row = Inr found"
    and "search_rows md q t f rows = Inr rs"
    using search_row_total [of row q md t f] by auto
  then show ?case by simp
qed

lemma load_embeddings_lengths:
  assumes "embeddings_matrix (load_embeddings file) = Some m"
  shows "length (chunk_metadata (load_embeddings file)) = length m"
  using assms
  by (auto simp: load_embeddings_def new_vector_store_def Let_def np_array_def
      split: option.splits if_splits sum.splits)

lemma enumerate_rows:
  assumes "row \<in> set (enumerate 0 m)"
  shows "fst row < length m \<and> snd row \<in> set m"
proof -
  obtain i v where "row = (i, v)" by (cases row)
  with assms show ?thesis by (auto simp: in_set_enumerate_eq)
qed

lemma example_store:
  "load_embeddings (Some example_file) =
     \<lparr>embeddings_data = example_file,
      embeddings_matrix = Some [[1, 0], [0, 1], [1, 0]],
      chunk_metadata = map meta_of example_file\<rparr>"
  by (simp add: load_embeddings_def example_file_def example_item_def has_embedding_def
      embedding_of_def np_array_def Let_def)

lemma example_query: "get_query_embedding example_runtime [] ''q'' = (Some [1, 0], [EmbeddingsCreate ''q''])"
  by (simp add: get_query_embedding_def example_runtime_def py_strip_def replace_newlines_def
      py_isspace_def Let_def)

lemma example_cosines:
  "cosine_similarity [1, 0] [1, 0] = Inr 1" "cosine_similarity [1, 0] [0, 1] = Inr 0"
  by (simp_all add: cosine_similarity_def np_dot_def np_linalg_norm_def Let_def)

lemma example_search:
  "similarity_search example_runtime (load_embeddings (Some example_file)) [] ''q'' 5 (1 / 2) None =
     (Inr [example_match ''a'' 1 0 1, example_match ''c'' 2 2 1], [EmbeddingsCreate ''q''])"
  unfolding similarity_search_def example_store
  by (simp add: example_query example_file_def
      enumerate_eq_zip upt_rec search_row_def example_cosines filter_given_def list_get_def
      meta_of_def example_item_def py_sort_reverse_def py_slice_to_def slice_bound_def
      example_match_def)

lemma search_rows_meta:
  assumes "search_rows md q t f rows = Inr rs" and "r \<in> set rs"
  shows "index r < length md \<and> chunk_id r = chunk_id (md ! index r)"
  using assms
proof (induction rows arbitrary: rs)
  case Nil
  then show ?case by simp
next
  case (Cons row rows)
  from Cons.prems(1) obtain found rest where
    found: "search_row md q t f row = Inr found" and
    rest: "search_rows md q t f rows = Inr rest" and rs: "rs = found @ rest"
    by (auto split: sum.splits)
  show ?case
  proof (cases "r \<in> set rest")
    case True
    then show ?thesis using Cons.IH [OF rest] by simp
  next
    case False
    then have "found = [r]" using search_row_cases [OF found] Cons.prems(2) rs by auto
    then show ?thesis using search_row_cases [OF found]
      by (auto simp: list_get_def chunk_meta.truncate_def split: if_splits)
  qed
qed

lemma similarity_search_results:
  assumes "similarity_search rt store calls question top_k thr wfilter = (Inr ms, calls')"
  shows "(\<forall>m\<in>set ms. thr \<le> similarity m \<and> index m < length (chunk_metadata store)
            \<and> chunk_id m = chunk_id (chunk_metadata store ! index m))
         \<and> sorted_wrt (\<lambda>a b. similarity b < similarity a
                \<or> (similarity a = similarity b \<and> index a < index b)) ms
         \<and> (0 \<le> top_k \<longrightarrow> int (length ms) \<le> top_k)"
proof (cases "ms = []")
  case True
  then show ?thesis by simp
next
  case False
  with assms obtain matrix qe sims where
    sims: "search_rows (chunk_metadata store) qe thr wfilter (enumerate 0 matrix) = Inr sims" and
    ms: "ms = py_slice_to (py_sort_reverse similarity sims) top_k"
    by (auto simp: similarity_search_def split: option.splits if_splits prod.splits sum.splits)
  have sub: "set ms \<subseteq> set sims"
    using py_slice_to_subset [of "py_sort_reverse similarity sims" top_k] ms by simp
  have "sorted_wrt (\<lambda>a b. index a < index b) sims"
    using search_rows_results [OF sims] sorted_enumerate [of 0 matrix] by simp
  then have "sorted_wrt (\<lambda>a b. similarity b < similarity a
                \<or> (similarity a = similarity b \<and> index a < index b)) ms"
    unfolding ms by (intro py_slice_to_sorted_wrt py_sort_reverse_ties)
  moreover have "\<forall>m\<in>set ms. thr \<le> similarity m \<and> index m < length (chunk_metadata store)
            \<and> chunk_id m = chunk_id (chunk_metadata store ! index m)"
    using sub search_rows_results [OF sims] search_rows_meta [OF sims] by blast
  moreover have "0 \<le> top_k \<longrightarrow> int (length ms) \<le> top_k"
    unfolding ms by (simp add: py_slice_to_length)
  ultimately show ?thesis by simp
qed

lemma similarity_search_returns:
  assumes "\<forall>qe c m. get_query_embedding rt calls question = (Some qe, c)
             \<and> embeddings_matrix (load_embeddings file) = Some m
             \<longrightarrow> list_all (\<lambda>row. length row = length qe) m"
  shows "\<exists>ms calls'. similarity_search rt (load_embeddings file) calls question top_k thr wfilter = (Inr ms, calls')"
proof (cases "embeddings_matrix (load_embeddings file)")
  case None
  then show ?thesis by (simp add: similarity_search_def)
next
  case (Some m)
  note len = load_embeddings_lengths [OF Some]
  show ?thesis
  proof (cases "get_query_embedding rt calls question")
    case (Pair e c)
    show ?thesis
    proof (cases e)
      case None
      then show ?thesis using Some Pair by (simp add: similarity_search_def)
    next
      case (Some qe)
      with Pair assms \<open>embeddings_matrix (load_embeddings file) = Some m\<close>
      have dims: "list_all (\<lambda>row. length row = length qe) m" by blast
      have "\<forall>row\<in>set (enumerate 0 m). length (snd row) = length qe
              \<and> fst row < length (chunk_metadata (load_embeddings file))"
        using dims len enumerate_rows [of _ m] by (auto simp: list_all_iff)
      then obtain rs where
        "search_rows (chunk_metadata (load_embeddings file)) qe thr wfilter (enumerate 0 m) = Inr rs"
        using search_rows_total by blast
      then show ?thesis
        using Some Pair \<open>embeddings_matrix (load_embeddings file) = Some m\<close>
        by (simp add: similarity_search_def)
    qed
  qed
qed

text \<open>
  Claim C1. Whenever the search returns matches for \<open>top_k > 0\<close>, there are at most
  \<open>top_k\<close> of them, each has a similarity of at least the threshold and stands for the
  record at its \<open>index\<close>, the similarities descend, and matches of equal similarity
  stand in the order of their records in the index. On an index loaded from a file the
  search returns whenever the rows have the dimension of the query embedding
  (\<open>np.dot\<close> raises otherwise).
\<close>

theorem similarity_search_spec:
  assumes "0 < top_k"
  shows "(\<forall>ms calls'.
            similarity_search rt store calls question top_k thr wfilter = (Inr ms, calls') \<longrightarrow>
              int (length ms) \<le> top_k
              \<and> (\<forall>m\<in>set ms. thr \<le> similarity m \<and> index m < length (chunk_metadata store)
                    \<and> chunk_id m = chunk_id (chunk_metadata store ! index m))
              \<and> (\<forall>i j. i < j \<and> j < length ms \<longrightarrow>
                    similarity (ms ! j) \<le> similarity (ms ! i)
                    \<and> (similarity (ms ! i) = similarity (ms ! j) \<longrightarrow>
                         index (ms ! i) < index (ms ! j))))
         \<and> ((\<forall>qe c m. get_query_embedding rt calls question = (Some qe, c)
                \<and> embeddings_matrix (load_embeddings file) = Some m
                \<longrightarrow> list_all (\<lambda>row. length row = length qe) m) \<longrightarrow>
              (\<exists>ms calls'. similarity_search rt (load_embeddings file) calls question top_k thr wfilter
                 = (Inr ms, calls')))"
proof (intro conjI allI impI)
  fix ms calls'
  assume s: "similarity_search rt store calls question top_k thr wfilter = (Inr ms, calls')"
  note r = similarity_search_results [OF s]
  show "int (length ms) \<le> top_k" using r assms by simp
  show "\<forall>m\<in>set ms. thr \<le> similarity m \<and> index m < length (chunk_metadata store)
          \<and> chunk_id m = chunk_id (chunk_metadata store ! index m)"
    using r by blast
  fix i j
  assume "i < j \<and> j < length ms"
  then have ij: "i < j" "j < length ms" by simp_all
  from r have "sorted_wrt (\<lambda>a b. similarity b < similarity a
                \<or> (similarity a = similarity b \<and> index a < index b)) ms" by blast
  from sorted_wrt_tie_order [OF this ij]
  show "similarity (ms ! j) \<le> similarity (ms ! i)"
    and "similarity (ms ! i) = similarity (ms ! j) \<Longrightarrow> index (ms ! i) < index (ms ! j)"
    by simp_all
next
  assume "\<forall>qe c m. get_query_embedding rt calls question = (Some qe, c)
            \<and> embeddings_matrix (load_embeddings file) = Some m
            \<longrightarrow> list_all (\<lambda>row. length row = length qe) m"
  then show "\<exists>ms calls'. similarity_search rt (load_embeddings file) calls question top_k thr wfilter
               = (Inr ms, calls')"
    by (rule similarity_search_returns)
qed

theorem similarity_search_spec_witness:
  "similarity_search example_runtime (load_embeddings (Some example_file)) [] ''q'' 5 (1 / 2) None
     = (Inr [example_match ''a'' 1 0 1, example_match ''c'' 2 2 1], [EmbeddingsCreate ''q''])
   \<and> int (length [example_match ''a'' 1 0 1, example_match ''c'' 2 2 1]) \<le> 5
   \<and> similarity (example_match ''a'' 1 0 1) = similarity (example_match ''c'' 2 2 1)
   \<and> index (example_match ''a'' 1 0 1) < index (example_match ''c'' 2 2 1)"
proof -
  let ?ms = "[example_match ''a'' 1 0 1, example_match ''c'' 2 2 1]"
  have "(0::int) < 5" by simp
  from similarity_search_spec [OF this, of example_runtime "load_embeddings (Some example_file)"
      "[]" "''q''" "1 / 2" None] example_search
  have "int (length ?ms) \<le> 5"
    and "\<forall>i j. i < j \<and> j < length ?ms \<longrightarrow>
           similarity (?ms ! j) \<le> similarity (?ms ! i)
           \<and> (similarity (?ms ! i) = similarity (?ms ! j) \<longrightarrow> index (?ms ! i) < index (?ms ! j))"
    by blast+
  from this(1) this(2) [rule_format, of 0 1] example_search show ?thesis
    by (simp add: example_match_def)
qed

section \<open>Keys in the order of their first occurrence\<close>

lemma first_seen_snoc:
  "first_seen (ks @ [k]) = (if k \<in> set ks then first_seen ks else first_seen ks @ [k])"
  by (simp add: first_seen_def)

lemma first_seen_set [simp]: "set (first_seen ks) = set ks"
  by (simp add: first_seen_def)

lemma first_seen_distinct [simp]: "distinct (first_seen ks)"
  by (simp add: first_seen_def)

lemma first_seen_Nil [simp]: "first_seen [] = []"
  by (simp add: first_seen_def)

lemma first_seen_order:
  "sorted_wrt (\<lambda>a b. length (takeWhile (\<lambda>x. x \<noteq> a) ks) < length (takeWhile (\<lambda>x. x \<noteq> b) ks))
     (first_seen ks)"
proof (induction ks rule: rev_induct)
  case Nil
  show ?case by simp
next
  case (snoc k ks)
  have old: "length (takeWhile (\<lambda>x. x \<noteq> a) (ks @ [k])) = length (takeWhile (\<lambda>x. x \<noteq> a) ks)"
    if "a \<in> set ks" for a
    using that by (simp add: takeWhile_append1 [OF that])
  have lt: "length (takeWhile (\<lambda>x. x \<noteq> a) ks) < length ks" if "a \<in> set ks" for a
    using that by (induction ks) auto
  have same: "sorted_wrt (\<lambda>a b. length (takeWhile (\<lambda>x. x \<noteq> a) (ks @ [k]))
                  < length (takeWhile (\<lambda>x. x \<noteq> b) (ks @ [k]))) (first_seen ks)"
    using snoc.IH
    by (rule sorted_wrt_mono_rel [rotated]) (simp add: old)
  show ?case
  proof (cases "k \<in> set ks")
    case True
    then show ?thesis using same by (simp add: first_seen_snoc)
  next
    case False
    then have new: "length (takeWhile (\<lambda>x. x \<noteq> k) (ks @ [k])) = length ks"
      by (induction ks) auto
    show ?thesis using False same
      by (auto simp: first_seen_snoc sorted_wrt_append old new lt)
  qed
qed

section \<open>Dictionaries built from a list of keys\<close>

lemma map_of_keyed:
  "map_of (map (\<lambda>k. (k, f k)) keys) k = (if k \<in> set keys then Some (f k) else None)"
  by (induction keys) auto

lemma dict_set_keyed:
  assumes "k \<in> set keys" and "distinct keys"
  shows "dict_set (map (\<lambda>k. (k, f k)) keys) k v
           = map (\<lambda>k'. (k', if k' = k then v else f k')) keys"
  using assms
proof (induction keys)
  case Nil
  then show ?case by simp
next
  case (Cons a keys)
  show ?case
  proof (cases "a = k")
    case True
    then have "k \<notin> set keys" using Cons.prems(2) by simp
    then have "map (\<lambda>k'. (k', if k' = k then v else f k')) keys = map (\<lambda>k. (k, f k)) keys"
      by (intro map_cong) auto
    then show ?thesis using True by simp
  next
    case False
    then show ?thesis using Cons by simp
  qed
qed

lemma dict_set_keyed_new:
  assumes "k \<notin> set keys"
  shows "dict_set (map (\<lambda>k. (k, f k)) keys) k v = map (\<lambda>k. (k, f k)) keys @ [(k, v)]"
  using assms by (intro dict_set_new) (auto simp: image_image)

section \<open>The grouping loop\<close>

lemma dict_set_last: "k \<notin> fst ` set d \<Longrightarrow> dict_set (d @ [(k, v)]) k v' = d @ [(k, v')]"
  by (induction d) auto

lemma matches_of_snoc:
  "matches_of k (ms @ [m]) = (if entity_of m = k then matches_of k ms @ [m] else matches_of k ms)"
  by (simp add: matches_of_def)

lemma matches_of_unseen: "k \<notin> entity_of ` set ms \<Longrightarrow> matches_of k ms = []"
  by (auto simp: matches_of_def filter_empty_conv)

lemma matches_of_seen: "k \<in> entity_of ` set ms \<Longrightarrow> matches_of k ms \<noteq> []"
  by (auto simp: matches_of_def filter_empty_conv)

lemma map_of_grouped:
  "map_of (grouped g ms) k
     = (if k \<in> entity_of ` set ms then Some (map g (matches_of k ms)) else None)"
  by (simp add: grouped_def map_of_keyed)

lemma grouped_Nil [simp]: "grouped g [] = []"
  by (simp add: grouped_def)

lemma grouped_snoc_seen:
  assumes "entity_of m \<in> entity_of ` set ms"
  shows "dict_append (grouped g ms) (entity_of m) (g m) = Inr (grouped g (ms @ [m]))"
proof -
  let ?keys = "first_seen (map entity_of ms)"
  have k: "entity_of m \<in> set ?keys" using assms by simp
  have "dict_set (grouped g ms) (entity_of m) (map g (matches_of (entity_of m) ms) @ [g m])
          = map (\<lambda>k'. (k', if k' = entity_of m then map g (matches_of (entity_of m) ms) @ [g m]
                            else map g (matches_of k' ms))) ?keys"
    unfolding grouped_def by (rule dict_set_keyed [OF k]) simp
  also have "\<dots> = map (\<lambda>k. (k, map g (matches_of k (ms @ [m])))) ?keys"
    by (intro map_cong) (auto simp: matches_of_snoc)
  also have "\<dots> = grouped g (ms @ [m])"
    using assms by (simp add: grouped_def first_seen_snoc)
  finally show ?thesis
    using assms by (simp add: dict_append_def dict_getitem_def map_of_grouped)
qed

lemma grouped_snoc_new:
  assumes "entity_of m \<notin> entity_of ` set ms"
  shows "dict_append (dict_set (grouped g ms) (entity_of m) []) (entity_of m) (g m)
           = Inr (grouped g (ms @ [m]))"
proof -
  let ?keys = "first_seen (map entity_of ms)"
  have k: "entity_of m \<notin> fst ` set (grouped g ms)"
    using assms by (auto simp: grouped_def image_image)
  have s: "dict_set (grouped g ms) (entity_of m) [] = grouped g ms @ [(entity_of m, [])]"
    by (rule dict_set_new [OF k])
  have l: "map_of (grouped g ms @ [(entity_of m, [])]) (entity_of m) = Some []"
    using assms by (simp add: map_of_grouped map_add_def)
  have u: "dict_set (grouped g ms @ [(entity_of m, [])]) (entity_of m) [g m]
             = grouped g ms @ [(entity_of m, [g m])]"
    by (rule dict_set_last [OF k])
  have "grouped g (ms @ [m])
          = map (\<lambda>k. (k, map g (matches_of k (ms @ [m])))) ?keys
              @ [(entity_of m, map g (matches_of (entity_of m) (ms @ [m])))]"
    using assms by (simp add: grouped_def first_seen_snoc)
  also have "map (\<lambda>k. (k, map g (matches_of k (ms @ [m])))) ?keys = grouped g ms"
    unfolding grouped_def using assms by (intro map_cong) (auto simp: matches_of_snoc)
  also have "map g (matches_of (entity_of m) (ms @ [m])) = [g m]"
    using assms by (simp add: matches_of_snoc matches_of_unseen)
  finally show ?thesis unfolding dict_append_def dict_getitem_def s l by (simp add: u)
qed

lemma group_result_grouped:
  "group_result m (grouped similarity ms, grouped chunk_of ms)
     = Inr (grouped similarity (ms @ [m]), grouped chunk_of (ms @ [m]))"
proof (cases "entity_of m \<in> entity_of ` set ms")
  case True
  then show ?thesis
    using grouped_snoc_seen [OF True, of similarity] grouped_snoc_seen [OF True, of chunk_of]
    by (simp add: group_result_def Let_def map_of_grouped entity_of_def [symmetric]
        chunk_of_def [symmetric])
next
  case False
  then show ?thesis
    using grouped_snoc_new [OF False, of similarity] grouped_snoc_new [OF False, of chunk_of]
    by (simp add: group_result_def Let_def map_of_grouped entity_of_def [symmetric]
        chunk_of_def [symmetric])
qed

lemma group_results_grouped:
  "group_results ms (grouped similarity seen, grouped chunk_of seen)
     = Inr (grouped similarity (seen @ ms), grouped chunk_of (seen @ ms))"
proof (induction ms arbitrary: seen)
  case Nil
  show ?case by simp
next
  case (Cons m ms)
  show ?case using Cons.IH [of "seen @ [m]"] by (simp add: group_result_grouped)
qed

lemma group_results_all:
  "group_results ms ([], []) = Inr (grouped similarity ms, grouped chunk_of ms)"
  using group_results_grouped [of ms "[]"] by simp

section \<open>Aggregates\<close>

lemma float_mean_value:
  "xs \<noteq> [] \<Longrightarrow> float_mean fl xs = Inr (float_div fl (float_sum fl xs) (real (length xs)))"
  by (simp add: float_mean_def)

lemma aggregate_workitem_value:
  assumes "k \<in> entity_of ` set ms"
  shows "aggregate_workitem fl (grouped chunk_of ms) (k, map similarity (matches_of k ms))
           = Inr (aggregate_of fl ms k)"
proof -
  have ne: "map similarity (matches_of k ms) \<noteq> []"
    using matches_of_seen [OF assms] by simp
  show ?thesis
    using assms
    by (simp add: aggregate_workitem_def py_max_Max [OF ne] float_mean_value [OF ne]
        dict_getitem_def map_of_grouped aggregate_of_def)
qed

lemma aggregate_workitems_value:
  assumes "set ks \<subseteq> entity_of ` set ms"
  shows "aggregate_workitems fl (grouped chunk_of ms)
           (map (\<lambda>k. (k, map similarity (matches_of k ms))) ks)
           = Inr (map (aggregate_of fl ms) ks)"
  using assms by (induction ks) (simp_all add: aggregate_workitem_value)

lemma rank_workitems_value:
  "rank_workitems fl ms top_k =
     Inr (py_slice_to
            (py_sort_reverse (\<lambda>x. (max_similarity x, avg_similarity x))
               (map (aggregate_of fl ms) (first_seen (map entity_of ms))))
            top_k)"
proof -
  have "aggregate_workitems fl (grouped chunk_of ms) (grouped similarity ms)
          = Inr (map (aggregate_of fl ms) (first_seen (map entity_of ms)))"
    unfolding grouped_def [of similarity] by (rule aggregate_workitems_value) simp
  then show ?thesis by (simp add: rank_workitems_def group_results_all)
qed

section \<open>The aggregates partition the matches\<close>

lemma sum_list_single:
  assumes "distinct ks" and "e \<in> set ks"
  shows "(\<Sum>k\<leftarrow>ks. if e = k then {#m#} else {#}) = {#m#}"
  using assms
proof (induction ks)
  case Nil
  then show ?case by simp
next
  case (Cons a ks)
  show ?case
  proof (cases "e = a")
    case True
    then have "e \<notin> set ks" using Cons.prems(1) by simp
    then have "(\<Sum>k\<leftarrow>ks. if e = k then {#m#} else {#}) = {#}"
      by (induction ks) auto
    then show ?thesis using True by simp
  next
    case False
    then show ?thesis using Cons by simp
  qed
qed

lemma matches_partition:
  assumes "distinct ks" and "entity_of ` set ms \<subseteq> set ks"
  shows "(\<Sum>k\<leftarrow>ks. mset (matches_of k ms)) = mset ms"
  using assms(2)
proof (induction ms)
  case Nil
  show ?case by (simp add: matches_of_def)
next
  case (Cons m ms)
  have "(\<Sum>k\<leftarrow>ks. mset (matches_of k (m # ms)))
          = (\<Sum>k\<leftarrow>ks. (if entity_of m = k then {#m#} else {#}) + mset (matches_of k ms))"
    by (intro arg_cong [where f = sum_list] map_cong) (auto simp: matches_of_def)
  also have "\<dots> = (\<Sum>k\<leftarrow>ks. if entity_of m = k then {#m#} else {#})
                    + (\<Sum>k\<leftarrow>ks. mset (matches_of k ms))"
    by (simp add: sum_list_addf)
  also have "\<dots> = {#m#} + mset ms"
    using Cons sum_list_single [OF assms(1), of "entity_of m" m] by simp
  finally show ?case by simp
qed

lemma sum_list_mset_cong:
  fixes f :: "'a \<Rightarrow> 'b::comm_monoid_add"
  assumes "mset xs = mset ys"
  shows "sum_list (map f xs) = sum_list (map f ys)"
proof -
  have "mset (map f xs) = mset (map f ys)" using assms by simp
  then have "sum_mset (mset (map f xs)) = sum_mset (mset (map f ys))" by (simp only:)
  then show ?thesis by (simp only: sum_mset_sum_list)
qed

lemma image_mset_sum_list:
  "(\<Sum>k\<leftarrow>ks. image_mset f (A k)) = image_mset f (\<Sum>k\<leftarrow>ks. A k)"
  by (induction ks) simp_all

lemma chunks_partition:
  assumes "mset full = mset (map (aggregate_of fl ms) (first_seen (map entity_of ms)))"
  shows "mset (concat (map relevant_chunks full)) = mset (map chunk_of ms)"
proof -
  let ?keys = "first_seen (map entity_of ms)"
  have "mset (concat (map relevant_chunks full))
          = (\<Sum>g\<leftarrow>full. mset (relevant_chunks g))"
    by (simp add: mset_concat comp_def)
  also have "\<dots> = (\<Sum>g\<leftarrow>map (aggregate_of fl ms) ?keys. mset (relevant_chunks g))"
    by (rule sum_list_mset_cong [OF assms])
  also have "\<dots> = (\<Sum>k\<leftarrow>?keys. image_mset chunk_of (mset (matches_of k ms)))"
    by (simp add: comp_def aggregate_of_def)
  also have "\<dots> = image_mset chunk_of (\<Sum>k\<leftarrow>?keys. mset (matches_of k ms))"
    by (rule image_mset_sum_list)
  also have "\<dots> = image_mset chunk_of (mset ms)"
    by (simp add: matches_partition)
  finally show ?thesis by simp
qed

section \<open>Ranking of the aggregates\<close>

lemma first_index_order:
  "sorted_wrt (\<lambda>a b. first_index ms (wr_workitem_id a) < first_index ms (wr_workitem_id b))
     (map (aggregate_of fl ms) (first_seen (map entity_of ms)))"
proof -
  have idx: "length (takeWhile (\<lambda>x. x \<noteq> k) (map entity_of ms)) = first_index ms k" for k
    by (simp add: first_index_def takeWhile_map comp_def)
  have "sorted_wrt (\<lambda>a b. first_index ms a < first_index ms b) (first_seen (map entity_of ms))"
    using first_seen_order [of "map entity_of ms"] by (simp add: idx)
  then show ?thesis by (simp add: sorted_wrt_map aggregate_of_def)
qed

lemma py_sort_reverse_mset [simp]: "mset (py_sort_reverse key xs) = mset xs"
  by (simp add: py_sort_reverse_def)

lemma py_slice_to_all: "int (length xs) \<le> k \<Longrightarrow> py_slice_to xs k = xs"
  by (simp add: py_slice_to_def slice_bound_def)

lemma aggregate_of_fields:
  assumes "k \<in> entity_of ` set ms"
  shows "relevant_chunks (aggregate_of fl ms k) = map chunk_of (matches_of k ms)"
    and "relevant_chunks (aggregate_of fl ms k) \<noteq> []"
    and "max_similarity (aggregate_of fl ms k)
           = Max (rc_similarity ` set (relevant_chunks (aggregate_of fl ms k)))"
    and "avg_similarity (aggregate_of fl ms k)
           = float_div fl (float_sum fl (map rc_similarity (relevant_chunks (aggregate_of fl ms k))))
               (real (length (relevant_chunks (aggregate_of fl ms k))))"
    and "chunk_count (aggregate_of fl ms k) = length (relevant_chunks (aggregate_of fl ms k))"
    and "wr_workitem_id (aggregate_of fl ms k) = k"
  using matches_of_seen [OF assms]
  by (simp_all add: aggregate_of_def image_image chunk_of_def comp_def)

text \<open>
  Claim C4 (as amended). For every list of matches and whatever the float arithmetic, the
  aggregation returns the first \<open>top_k\<close> entries (\<open>[:top_k]\<close>) of a ranked list of
  aggregates, and all of it when \<open>top_k\<close> is at least its length. The ranked list
  partitions the matches exactly: its chunks are the matches, each once; it has one
  aggregate per entity that occurs; every aggregate holds exactly the matches of its
  entity, in their order, with the true maximum of their scores and with the mean that
  the float arithmetic computes as \<open>sum(scores) / len(scores)\<close>. The ranked list descends
  by maximum, then by that computed mean, and aggregates equal in both stand in the order
  in which their entities first occur in the input.
\<close>

theorem rank_workitems_spec:
  "\<exists>full.
     rank_workitems fl ms top_k = Inr (py_slice_to full top_k)
     \<and> (int (length full) \<le> top_k \<longrightarrow> rank_workitems fl ms top_k = Inr full)
     \<and> mset (concat (map relevant_chunks full)) = mset (map chunk_of ms)
     \<and> distinct (map wr_workitem_id full)
     \<and> set (map wr_workitem_id full) = entity_of ` set ms
     \<and> (\<forall>g\<in>set full.
           relevant_chunks g = map chunk_of (matches_of (wr_workitem_id g) ms)
           \<and> relevant_chunks g \<noteq> []
           \<and> max_similarity g = Max (rc_similarity ` set (relevant_chunks g))
           \<and> avg_similarity g = float_div fl (float_sum fl (map rc_similarity (relevant_chunks g)))
                                  (real (length (relevant_chunks g)))
           \<and> chunk_count g = length (relevant_chunks g))
     \<and> (\<forall>i j. i < j \<and> j < length full \<longrightarrow>
           max_similarity (full ! j) < max_similarity (full ! i)
           \<or> (max_similarity (full ! j) = max_similarity (full ! i)
               \<and> avg_similarity (full ! j) < avg_similarity (full ! i))
           \<or> (max_similarity (full ! j) = max_similarity (full ! i)
               \<and> avg_similarity (full ! j) = avg_similarity (full ! i)
               \<and> first_index ms (wr_workitem_id (full ! i))
                   < first_index ms (wr_workitem_id (full ! j))))"
proof -
  let ?keys = "first_seen (map entity_of ms)"
  let ?unsorted = "map (aggregate_of fl ms) ?keys"
  let ?key = "\<lambda>x. (max_similarity x, avg_similarity x)"
  let ?full = "py_sort_reverse ?key ?unsorted"
  have ret: "rank_workitems fl ms top_k = Inr (py_slice_to ?full top_k)"
    by (rule rank_workitems_value)
  have all: "int (length ?full) \<le> top_k \<longrightarrow> rank_workitems fl ms top_k = Inr ?full"
    using ret by (simp add: py_slice_to_all)
  have part: "mset (concat (map relevant_chunks ?full)) = mset (map chunk_of ms)"
    by (rule chunks_partition) simp
  have each: "\<exists>k\<in>entity_of ` set ms. g = aggregate_of fl ms k" if "g \<in> set ?full" for g
    using that by auto
  have ids: "map wr_workitem_id ?unsorted = ?keys"
    by (simp add: comp_def aggregate_of_def)
  have "mset (map wr_workitem_id ?full) = mset (map wr_workitem_id ?unsorted)"
    by (simp only: mset_map py_sort_reverse_mset)
  then have mids: "mset (map wr_workitem_id ?full) = mset ?keys"
    unfolding ids .
  have dist: "distinct (map wr_workitem_id ?full)"
    using mset_eq_imp_distinct_iff [OF mids] by simp
  have cover: "set (map wr_workitem_id ?full) = entity_of ` set ms"
    using mset_eq_setD [OF mids] by simp
  have fields: "\<forall>g\<in>set ?full.
           relevant_chunks g = map chunk_of (matches_of (wr_workitem_id g) ms)
           \<and> relevant_chunks g \<noteq> []
           \<and> max_similarity g = Max (rc_similarity ` set (relevant_chunks g))
           \<and> avg_similarity g = float_div fl (float_sum fl (map rc_similarity (relevant_chunks g)))
                                  (real (length (relevant_chunks g)))
           \<and> chunk_count g = length (relevant_chunks g)"
  proof
    fix g
    assume "g \<in> set ?full"
    then obtain k where k: "k \<in> entity_of ` set ms" and g: "g = aggregate_of fl ms k"
      using each by blast
    show "relevant_chunks g = map chunk_of (matches_of (wr_workitem_id g) ms)
           \<and> relevant_chunks g \<noteq> []
           \<and> max_similarity g = Max (rc_similarity ` set (relevant_chunks g))
           \<and> avg_similarity g = float_div fl (float_sum fl (map rc_similarity (relevant_chunks g)))
                                  (real (length (relevant_chunks g)))
           \<and> chunk_count g = length (relevant_chunks g)"
      unfolding g using aggregate_of_fields [OF k] by simp
  qed
  have ties: "sorted_wrt (\<lambda>a b. ?key b < ?key a
                \<or> (?key a = ?key b
                    \<and> first_index ms (wr_workitem_id a) < first_index ms (wr_workitem_id b)))
              ?full"
    by (rule py_sort_reverse_ties [OF first_index_order])
  have order: "\<forall>i j. i < j \<and> j < length ?full \<longrightarrow>
           max_similarity (?full ! j) < max_similarity (?full ! i)
           \<or> (max_similarity (?full ! j) = max_similarity (?full ! i)
               \<and> avg_similarity (?full ! j) < avg_similarity (?full ! i))
           \<or> (max_similarity (?full ! j) = max_similarity (?full ! i)
               \<and> avg_similarity (?full ! j) = avg_similarity (?full ! i)
               \<and> first_index ms (wr_workitem_id (?full ! i))
                   < first_index ms (wr_workitem_id (?full ! j)))"
  proof (intro allI impI)
    fix i j
    assume "i < j \<and> j < length ?full"
    then have "i < j" "j < length ?full" by simp_all
    from sorted_wrt_nth_less [OF ties this]
    show "max_similarity (?full ! j) < max_similarity (?full ! i)
           \<or> (max_similarity (?full ! j) = max_similarity (?full ! i)
               \<and> avg_similarity (?full ! j) < avg_similarity (?full ! i))
           \<or> (max_similarity (?full ! j) = max_similarity (?full ! i)
               \<and> avg_similarity (?full ! j) = avg_similarity (?full ! i)
               \<and> first_index ms (wr_workitem_id (?full ! i))
                   < first_index ms (wr_workitem_id (?full ! j)))"
      by (auto simp: less_le)
  qed
  from ret all part dist cover fields order show ?thesis by blast
qed

lemma example_entities:
  "str_int 1 = ''1''" "str_int 2 = ''2''"
  by (simp_all add: str_int_def str_nat.simps digit_char_def)

lemma floor_log2:
  assumes "2 powr of_int e \<le> x" and "x < 2 powr (of_int e + 1)"
  shows "\<lfloor>log 2 x\<rfloor> = e"
proof -
  have pos: "0 < x" using assms(1) powr_gt_zero [of 2 "of_int e"] by linarith
  have "of_int e \<le> log 2 x" using assms(1) pos by (simp add: le_log_iff)
  moreover have "log 2 x < of_int e + 1" using assms(2) pos by (simp add: log_less_iff)
  ultimately show ?thesis by (simp add: floor_eq_iff)
qed

lemma round_to_bits_value:
  assumes "2 powr of_int e \<le> \<bar>x\<bar>" and "\<bar>x\<bar> < 2 powr (of_int e + 1)"
  shows "round_to_bits p x
           = 2 powr (of_int e - real p + 1)
               * of_int (round_half_even (x / 2 powr (of_int e - real p + 1)))"
proof -
  have "x \<noteq> 0" using assms(1) powr_gt_zero [of 2 "of_int e"] by auto
  then show ?thesis
    by (simp add: round_to_bits_def floor_log2 [OF assms] Let_def)
qed

lemma binary32_values:
  "round_to_bits 24 1 = 1"
  "round_to_bits 24 (3 / 4) = 3 / 4"
  "round_to_bits 24 (1 / 2) = 1 / 2"
  "round_to_bits 24 (1 / 3) = 11184811 / 33554432"
  using round_to_bits_value [of 0 1 24] round_to_bits_value [of "-1" "3 / 4" 24]
    round_to_bits_value [of "-1" "1 / 2" 24] round_to_bits_value [of "-2" "1 / 3" 24]
  by (simp_all add: round_half_even_def powr_minus)

lemma binary64_values:
  "round_to_bits 53 1 = 1"
  "round_to_bits 53 (1 / 3) = 6004799503160661 / 18014398509481984"
  using round_to_bits_value [of 0 1 53] round_to_bits_value [of "-2" "1 / 3" 53]
  by (simp_all add: round_half_even_def powr_minus)

lemma binary64_means:
  "float_mean binary64_ops [1, 0, 0] = Inr (6004799503160661 / 18014398509481984)"
  by (simp add: float_mean_def binary64_ops_def binary64_values)

lemma binary32_means:
  "float_mean binary32_ops [3 / 4, 1 / 4] = Inr (1 / 2)"
  "float_mean binary32_ops [1 / 2] = Inr (1 / 2)"
  "float_mean binary32_ops [1, 0, 0] = Inr (11184811 / 33554432)"
  by (simp_all add: float_mean_def binary32_ops_def binary32_values)

lemma example_grouping:
  "group_results example_matches ([], []) =
     Inr ([(''1'', [3 / 4, 1 / 4]), (''2'', [1 / 2])],
          [(''1'', [RelevantChunk ''a'' ''text'' (3 / 4),
                    RelevantChunk ''b'' ''text'' (1 / 4)]),
           (''2'', [RelevantChunk ''c'' ''text'' (1 / 2)])])"
  "group_results example_thirds ([], []) =
     Inr ([(''1'', [1, 0, 0])],
          [(''1'', [RelevantChunk ''a'' ''text'' 1, RelevantChunk ''b'' ''text'' 0,
                    RelevantChunk ''c'' ''text'' 0])])"
  by (simp_all add: example_matches_def example_thirds_def example_match_def group_result_def
      dict_append_def dict_getitem_def example_entities Let_def)

lemma example_aggregates:
  "aggregate_workitems binary32_ops
     [(''1'', [RelevantChunk ''a'' ''text'' (3 / 4), RelevantChunk ''b'' ''text'' (1 / 4)]),
      (''2'', [RelevantChunk ''c'' ''text'' (1 / 2)])]
     [(''1'', [3 / 4, 1 / 4]), (''2'', [1 / 2])]
   = Inr [example_aggregate_1, example_aggregate_2]"
  "aggregate_workitems binary32_ops
     [(''1'', [RelevantChunk ''a'' ''text'' 1, RelevantChunk ''b'' ''text'' 0,
               RelevantChunk ''c'' ''text'' 0])]
     [(''1'', [1, 0, 0])]
   = Inr [example_aggregate_3]"
  "aggregate_workitems binary64_ops
     [(''1'', [RelevantChunk ''a'' ''text'' 1, RelevantChunk ''b'' ''text'' 0,
               RelevantChunk ''c'' ''text'' 0])]
     [(''1'', [1, 0, 0])]
   = Inr [example_aggregate_4]"
  by (simp_all add: aggregate_workitem_def py_max_def binary32_means binary64_means
      dict_getitem_def example_aggregate_1_def example_aggregate_2_def
      example_aggregate_3_def example_aggregate_4_def)

lemma example_sorted_aggregates:
  "py_sort_reverse (\<lambda>x. (max_similarity x, avg_similarity x))
     [example_aggregate_1, example_aggregate_2] = [example_aggregate_1, example_aggregate_2]"
  "py_sort_reverse (\<lambda>x. (max_similarity x, avg_similarity x)) [example_aggregate_3]
     = [example_aggregate_3]"
  "py_sort_reverse (\<lambda>x. (max_similarity x, avg_similarity x)) [example_aggregate_4]
     = [example_aggregate_4]"
  by (simp_all add: py_sort_reverse_def example_aggregate_1_def example_aggregate_2_def)

lemma example_rank:
  "rank_workitems binary32_ops example_matches 5 = Inr [example_aggregate_1, example_aggregate_2]"
  "rank_workitems binary32_ops example_matches 1 = Inr [example_aggregate_1]"
  "rank_workitems binary32_ops example_thirds 5 = Inr [example_aggregate_3]"
  "rank_workitems binary64_ops example_thirds 5 = Inr [example_aggregate_4]"
  unfolding rank_workitems_def example_grouping
    apply (simp_all only: sum.case snd_conv fst_conv example_aggregates example_sorted_aggregates)
  by (simp_all add: py_slice_to_def slice_bound_def)

theorem rank_workitems_spec_witness:
  "rank_workitems binary32_ops example_matches 5
     = Inr [example_aggregate_1, example_aggregate_2]
   \<and> mset (concat (map relevant_chunks [example_aggregate_1, example_aggregate_2]))
       = mset (map chunk_of example_matches)
   \<and> avg_similarity example_aggregate_1
       = float_div binary32_ops
           (float_sum binary32_ops (map rc_similarity (relevant_chunks example_aggregate_1)))
           (real (length (relevant_chunks example_aggregate_1)))
   \<and> max_similarity example_aggregate_2 < max_similarity example_aggregate_1"
proof -
  from rank_workitems_spec [of binary32_ops example_matches 5] obtain full where
    ret: "int (length full) \<le> 5 \<longrightarrow> rank_workitems binary32_ops example_matches 5 = Inr full" and
    part: "mset (concat (map relevant_chunks full)) = mset (map chunk_of example_matches)" and
    dist: "distinct (map wr_workitem_id full)" and
    cover: "set (map wr_workitem_id full) = entity_of ` set example_matches" and
    fields: "\<forall>g\<in>set full.
           relevant_chunks g = map chunk_of (matches_of (wr_workitem_id g) example_matches)
           \<and> relevant_chunks g \<noteq> []
           \<and> max_similarity g = Max (rc_similarity ` set (relevant_chunks g))
           \<and> avg_similarity g
               = float_div binary32_ops
                   (float_sum binary32_ops (map rc_similarity (relevant_chunks g)))
                   (real (length (relevant_chunks g)))
           \<and> chunk_count g = length (relevant_chunks g)"
    by blast
  have "card (set (map wr_workitem_id full)) = length full"
    using distinct_card [OF dist] by simp
  moreover have "entity_of ` set example_matches = {''1'', ''2''}"
    by (auto simp: example_matches_def example_match_def entity_of_def example_entities)
  ultimately have "length full = 2" using cover by simp
  with ret example_rank(1) have full: "full = [example_aggregate_1, example_aggregate_2]"
    by simp
  have "avg_similarity example_aggregate_1
       = float_div binary32_ops
           (float_sum binary32_ops (map rc_similarity (relevant_chunks example_aggregate_1)))
           (real (length (relevant_chunks example_aggregate_1)))"
    using fields unfolding full by simp
  moreover have "max_similarity example_aggregate_2 < max_similarity example_aggregate_1"
    by (simp add: example_aggregate_1_def example_aggregate_2_def)
  ultimately show ?thesis
    using part example_rank(1) unfolding full by simp
qed

theorem rank_workitems_counterexample:
  "rank_workitems binary32_ops example_matches 1 = Inr [example_aggregate_1]
   \<and> example_match ''c'' 2 2 (1 / 2) \<in> set example_matches
   \<and> chunk_of (example_match ''c'' 2 2 (1 / 2))
       \<notin> set (concat (map relevant_chunks [example_aggregate_1]))
   \<and> rank_workitems binary32_ops example_thirds 5 = Inr [example_aggregate_3]
   \<and> avg_similarity example_aggregate_3
       \<noteq> sum_list (map rc_similarity (relevant_chunks example_aggregate_3))
           / real (length (relevant_chunks example_aggregate_3))
   \<and> rank_workitems binary64_ops example_thirds 5 = Inr [example_aggregate_4]
   \<and> avg_similarity example_aggregate_4
       \<noteq> sum_list (map rc_similarity (relevant_chunks example_aggregate_4))
           / real (length (relevant_chunks example_aggregate_4))"
  using example_rank(2) example_rank(3) example_rank(4)
  by (simp add: example_matches_def example_aggregate_1_def example_aggregate_3_def
      example_aggregate_4_def chunk_of_def example_match_def)

section \<open>Answering a question\<close>

lemma calculate_confidence_tier:
  "\<exists>c. calculate_confidence chunks = Inr c \<and> c \<in> {''high'', ''medium'', ''low''}"
proof (cases "chunks = []")
  case True
  then show ?thesis by (simp add: calculate_confidence_def)
next
  case False
  then have "map similarity chunks \<noteq> []" by simp
  then show ?thesis
    using False by (simp add: calculate_confidence_def py_max_Max py_mean_value)
qed

lemma answer_question_try_generated:
  assumes "similarity_search rt store calls q top_k thr None = (Inr ms, calls1)" and "ms \<noteq> []"
    and "calculate_confidence ms = Inr c"
  shows "answer_question_try rt store calls q top_k thr incl temp =
           (Inr \<lparr>answer = fst (generate_response rt calls1 q (build_context_string rt ms incl) temp),
                 sources = format_sources rt ms, confidence = c, query = q,
                 num_sources = Some (length ms)\<rparr>,
            snd (generate_response rt calls1 q (build_context_string rt ms incl) temp))"
  using assms by (simp add: answer_question_try_def Let_def)

text \<open>
  Claim C5 (as amended). When the search returned at least one match and the generation
  call fails, no exception reaches the caller: the result carries the error text of the
  failure as its answer, the formatted matches as its sources, and as its confidence the
  tier computed from the matches (\<open>high\<close>, \<open>medium\<close> or \<open>low\<close>), never \<open>error\<close>.
\<close>

theorem generation_failure_spec:
  assumes "similarity_search rt store calls q top_k thr None = (Inr ms, calls1)" and "ms \<noteq> []"
    and "chat_completions_create rt calls1 system_message
           (user_message q (build_context_string rt ms incl)) temp = Inl e"
  shows "\<exists>c calls2.
           answer_question_try rt store calls q top_k thr incl temp =
             (Inr \<lparr>answer = generation_error_text e, sources = format_sources rt ms,
                   confidence = c, query = q, num_sources = Some (length ms)\<rparr>, calls2)
           \<and> answer_question rt store calls q top_k thr incl temp =
             (\<lparr>answer = generation_error_text e, sources = format_sources rt ms,
               confidence = c, query = q, num_sources = Some (length ms)\<rparr>, calls2)
           \<and> calculate_confidence ms = Inr c
           \<and> c \<in> {''high'', ''medium'', ''low''} \<and> c \<noteq> ''error''"
proof -
  obtain c where c: "calculate_confidence ms = Inr c" "c \<in> {''high'', ''medium'', ''low''}"
    using calculate_confidence_tier by blast
  have gen: "fst (generate_response rt calls1 q (build_context_string rt ms incl) temp)
               = generation_error_text e"
    using assms(3) by (simp add: generate_response_def Let_def)
  note tried = answer_question_try_generated [OF assms(1,2) c(1), of incl temp]
  have "c \<noteq> ''error''" using c(2) by auto
  then show ?thesis using tried gen c by (simp add: answer_question_def)
qed

lemma example_search_rows:
  "search_rows (map meta_of example_file) [1, 0] (3 / 10) None
     (enumerate 0 [[1, 0], [0, 1], [1, 0]])
   = Inr [example_match ''a'' 1 0 1, example_match ''c'' 2 2 1]"
  by (simp add: example_file_def enumerate_eq_zip upt_rec search_row_def example_cosines
      filter_given_def list_get_def meta_of_def example_item_def example_match_def)

lemma example_sorted:
  "py_slice_to (py_sort_reverse similarity
     [example_match ''a'' 1 0 1, example_match ''c'' 2 2 1]) 5
   = [example_match ''a'' 1 0 1, example_match ''c'' 2 2 1]"
  by (simp add: py_sort_reverse_def py_slice_to_def slice_bound_def example_match_def)

lemma example_search_any:
  assumes "get_query_embedding rt calls q = (Some [1, 0], calls1)"
  shows "similarity_search rt (load_embeddings (Some example_file)) calls q 5 (3 / 10) None =
     (Inr [example_match ''a'' 1 0 1, example_match ''c'' 2 2 1], calls1)"
proof -
  have ne: "length (map meta_of example_file) \<noteq> 0" by (simp add: example_file_def)
  show ?thesis
    unfolding similarity_search_def example_store
    by (simp only: vector_store.simps option.case ne if_False assms prod.case
        example_search_rows sum.case example_sorted)
qed

lemma example_confidence:
  "calculate_confidence [example_match ''a'' 1 0 1, example_match ''c'' 2 2 1] = Inr ''high''"
  by (simp add: calculate_confidence_def py_max_def py_mean_def example_match_def)

lemma failing_query:
  "get_query_embedding failing_runtime [] ''q'' = (Some [1, 0], [EmbeddingsCreate ''q''])"
  by (simp add: get_query_embedding_def failing_runtime_def py_strip_def replace_newlines_def
      py_isspace_def Let_def)

lemma failing_chat:
  "chat_completions_create failing_runtime calls sm um t = Inl (APIConnectionError ''down'')"
  by (simp add: failing_runtime_def)

theorem generation_failure_spec_witness:
  "answer (fst (answer_question failing_runtime (load_embeddings (Some example_file)) []
       ''q'' 5 (3 / 10) True (2 / 10)))
     = ''Connection error to GPT model: down. Check your endpoint and network.''
   \<and> confidence (fst (answer_question failing_runtime (load_embeddings (Some example_file)) []
       ''q'' 5 (3 / 10) True (2 / 10))) \<in> {''high'', ''medium'', ''low''}"
proof -
  have "[example_match ''a'' 1 0 1, example_match ''c'' 2 2 1] \<noteq> []" by simp
  from generation_failure_spec [OF example_search_any [OF failing_query] this failing_chat,
      of True "2 / 10"]
  show ?thesis by auto
qed

theorem generation_failure_counterexample:
  "fst (similarity_search failing_runtime (load_embeddings (Some example_file)) []
       ''q'' 5 (3 / 10) None)
     = Inr [example_match ''a'' 1 0 1, example_match ''c'' 2 2 1]
   \<and> (\<forall>calls sm um t. chat_completions_create failing_runtime calls sm um t
         = Inl (APIConnectionError ''down''))
   \<and> confidence (fst (answer_question failing_runtime (load_embeddings (Some example_file)) []
       ''q'' 5 (3 / 10) True (2 / 10))) = ''high''
   \<and> confidence (fst (answer_question failing_runtime (load_embeddings (Some example_file)) []
       ''q'' 5 (3 / 10) True (2 / 10))) \<noteq> ''error''"
proof -
  note s = example_search_any [OF failing_query]
  have "[example_match ''a'' 1 0 1, example_match ''c'' 2 2 1] \<noteq> []" by simp
  note t = answer_question_try_generated [OF s this example_confidence, of True "2 / 10"]
  have "confidence (fst (answer_question failing_runtime (load_embeddings (Some example_file)) []
       ''q'' 5 (3 / 10) True (2 / 10))) = ''high''"
    unfolding answer_question_def t by simp
  then show ?thesis using s failing_chat by simp
qed

section \<open>Blank queries\<close>

lemma py_strip_blank:
  assumes "list_all py_isspace s"
  shows "py_strip (replace_newlines s) = []"
proof -
  have "list_all py_isspace (replace_newlines s)"
    using assms by (auto simp: replace_newlines_def list_all_iff py_isspace_def)
  then have d: "dropWhile py_isspace (replace_newlines s) = []"
    by (simp add: list_all_iff dropWhile_eq_Nil_conv)
  show ?thesis unfolding py_strip_def d by simp
qed

lemma get_query_embedding_blank:
  "list_all py_isspace s \<Longrightarrow> get_query_embedding rt calls s = (None, calls)"
  by (simp add: get_query_embedding_def py_strip_blank)

lemma similarity_search_blank:
  "list_all py_isspace s \<Longrightarrow> similarity_search rt store calls s top_k thr wfilter = (Inr [], calls)"
  by (simp add: similarity_search_def get_query_embedding_blank split: option.splits)

text \<open>
  Claim C6 (as amended). For every query that is empty or consists only of whitespace the
  answer operation raises nothing and makes no request to a provider (the log of calls is
  unchanged, so nothing is embedded, searched or retried): it returns the "no relevant
  work items" answer with no sources and confidence \<open>low\<close>.
\<close>

theorem blank_query_spec:
  assumes "list_all py_isspace q"
  shows "answer_question_try rt store calls q top_k thr incl temp =
           (Inr \<lparr>answer = not_found_answer, sources = [], confidence = ''low'',
                 query = q, num_sources = None\<rparr>, calls)
         \<and> answer_question rt store calls q top_k thr incl temp =
           (\<lparr>answer = not_found_answer, sources = [], confidence = ''low'',
             query = q, num_sources = None\<rparr>, calls)"
  using assms
  by (simp add: answer_question_def answer_question_try_def similarity_search_blank)

theorem blank_query_spec_witness:
  "list_all py_isspace '' ''
   \<and> answer_question example_runtime (load_embeddings (Some example_file)) [] '' '' 5 (3 / 10)
         True (2 / 10) =
       (\<lparr>answer = not_found_answer, sources = [], confidence = ''low'',
         query = '' '', num_sources = None\<rparr>, [])"
proof -
  have b: "list_all py_isspace '' ''" by (simp add: py_isspace_def)
  from blank_query_spec [OF b, of example_runtime "load_embeddings (Some example_file)" "[]"
      5 "3 / 10" True "2 / 10"] b
  show ?thesis by simp
qed

theorem blank_query_counterexample:
  "list_all py_isspace '' ''
   \<and> (\<forall>e. fst (answer_question_try example_runtime (load_embeddings (Some example_file)) []
                '' '' 5 (3 / 10) True (2 / 10)) \<noteq> Inl e)
   \<and> confidence (fst (answer_question example_runtime (load_embeddings (Some example_file)) []
                '' '' 5 (3 / 10) True (2 / 10))) = ''low''"
proof -
  have b: "list_all py_isspace '' ''" by (simp add: py_isspace_def)
  have s: "similarity_search example_runtime (load_embeddings (Some example_file)) []
             '' '' 5 (3 / 10) None = (Inr [], [])"
    using b by (rule similarity_search_blank)
  show ?thesis using b
    by (simp add: answer_question_def answer_question_try_def s)
qed

section \<open>The splitter\<close>

lemma py_range_error:
  assumes "py_range n step = Inl e"
  shows "step = 0 \<and> e = ValueError ''range() arg 3 must not be zero''"
  using assms by (simp add: py_range_def split: if_splits)

lemma py_range_empty:
  assumes "step \<noteq> 0"
  shows "py_range 0 step = Inr []"
  using assms by (simp add: py_range_def)

lemma char_windows_error:
  assumes "char_windows sp text = Inl e"
  shows "chunk_overlap sp = chunk_size sp \<and> e = ValueError ''range() arg 3 must not be zero''"
proof (cases "py_range (int (length text)) (chunk_size sp - chunk_overlap sp)")
  case (Inl e')
  with assms have "e' = e" by (simp add: char_windows_def)
  with py_range_error [OF Inl] show ?thesis by simp
next
  case (Inr starts)
  with assms show ?thesis by (simp add: char_windows_def)
qed

lemma token_windows_error:
  assumes "token_windows sp tokens = Inl e"
  shows "chunk_overlap sp = chunk_size sp \<and> e = ValueError ''range() arg 3 must not be zero''"
proof (cases "py_range (int (length tokens)) (chunk_size sp - chunk_overlap sp)")
  case (Inl e')
  with assms have "e' = e" by (simp add: token_windows_def)
  with py_range_error [OF Inl] show ?thesis by simp
next
  case (Inr starts)
  with assms show ?thesis by (simp add: token_windows_def)
qed

lemma final_pass_error:
  assumes "final_pass sp chunks = Inl e"
  shows "chunk_overlap sp = chunk_size sp \<and> e = ValueError ''range() arg 3 must not be zero''"
  using assms
proof (induction chunks)
  case Nil
  then show ?case by simp
next
  case (Cons chunk chunks)
  then show ?case
    by (auto simp: Let_def dest: token_windows_error split: if_splits sum.splits)
qed

lemma pack_parts_error:
  assumes "\<And>part e. split_rest part = Inl e \<Longrightarrow> P e"
    and "pack_parts sp sep split_rest parts chunks = Inl e"
  shows "P e"
  using assms(2)
proof (induction parts arbitrary: chunks)
  case Nil
  then show ?case by simp
next
  case (Cons part parts)
  then show ?case
    by (auto simp: Let_def dest: assms(1) split: if_splits sum.splits)
qed

lemma split_text_error:
  assumes "split_text sp t seps = Inl e"
  shows "chunk_overlap sp = chunk_size sp \<and> e = ValueError ''range() arg 3 must not be zero''"
  using assms
proof (induction seps arbitrary: t e)
  case Nil
  then show ?case by (simp add: char_windows_error)
next
  case (Cons sep seps)
  show ?case
  proof (cases "sep = []")
    case True
    with Cons.prems show ?thesis
      by (auto dest: token_windows_error split: if_splits)
  next
    case False
    show ?thesis
    proof (cases "pack_parts sp sep (\<lambda>part. split_text sp part seps) (py_split t sep) []")
      case (Inl e')
      with Cons.prems False have "e' = e" by simp
      moreover have "chunk_overlap sp = chunk_size sp
          \<and> e' = ValueError ''range() arg 3 must not be zero''"
        by (rule pack_parts_error [where split_rest = "\<lambda>part. split_text sp part seps",
              OF _ Inl]) (rule Cons.IH)
      ultimately show ?thesis by simp
    next
      case (Inr chunks)
      with Cons.prems False show ?thesis by (simp add: final_pass_error)
    qed
  qed
qed

lemma split_document_error:
  assumes "split_document sp text filepath = Inl e"
  shows "chunk_overlap sp = chunk_size sp \<and> e = ValueError ''range() arg 3 must not be zero''"
  using assms by (auto simp: split_document_def dest: split_text_error split: sum.splits)

lemma split_document_returns:
  assumes "chunk_overlap sp \<noteq> chunk_size sp"
  shows "\<exists>chunks. split_document sp text filepath = Inr chunks"
proof (cases "split_document sp text filepath")
  case (Inl e)
  with split_document_error [OF Inl] assms show ?thesis by simp
next
  case (Inr chunks)
  then show ?thesis by simp
qed

lemma split_text_empty:
  assumes "chunk_overlap sp \<noteq> chunk_size sp"
    and "seps = [] \<or> hd seps \<noteq> [] \<or> encode (tokenizer sp) [] = []"
  shows "split_text sp [] seps = Inr [] \<or> split_text sp [] seps = Inr [[]]"
proof (cases seps)
  case Nil
  with assms(1) show ?thesis by (simp add: char_windows_def py_range_empty)
next
  case (Cons sep others)
  show ?thesis
  proof (cases "sep = []")
    case True
    with Cons assms(2) have "encode (tokenizer sp) [] = []" by simp
    with Cons True assms(1) show ?thesis
      by (simp add: token_windows_def py_range_empty)
  next
    case False
    with Cons show ?thesis by (simp add: py_split_def)
  qed
qed

lemma py_strip_empty: "py_strip [] = []"
  by (simp add: py_strip_def)

lemma split_document_empty:
  assumes "chunk_overlap sp \<noteq> chunk_size sp"
    and "separators sp = [] \<or> hd (separators sp) \<noteq> [] \<or> encode (tokenizer sp) [] = []"
  shows "split_document sp [] filepath = Inr []"
  using split_text_empty [OF assms(1), of "separators sp"] assms(2)
  by (auto simp: split_document_def py_strip_empty)

lemma init_splitter_fields:
  "chunk_size (init_splitter tok m v seps) = m"
  "chunk_overlap (init_splitter tok m v seps) = v"
  "tokenizer (init_splitter tok m v seps) = tok"
  "separators (init_splitter tok m v seps) \<noteq> []"
  by (simp_all add: init_splitter_def default_separators_def split: option.splits)

lemma example_unchecked:
  "split_document (init_splitter char_tokenizer 5 5 None) ''hi'' ''f''
     = Inr [\<lparr>doc_content = ''hi'', doc_filepath = ''f'', doc_chunk_id = ''f_0''\<rparr>]"
  by code_simp

lemma example_zero_step:
  "split_document (init_splitter char_tokenizer 1 1 None) ''ab'' ''f''
     = Inl (ValueError ''range() arg 3 must not be zero'')"
  by code_simp

lemma char_tokenizer_fields:
  "encode char_tokenizer s = s" "decode char_tokenizer ts = ts"
  by (simp_all add: char_tokenizer_def)

text \<open>
  Claim C7 (as amended). The splitter does not check its configuration, and an overlap
  that is not below the size is not rejected. Splitting fails only when the overlap equals
  the size, and then with the \<open>ValueError\<close> that \<open>range\<close> raises for step zero where a
  hard slice is taken. When the overlap is below the size, splitting returns for every
  text, and for the empty text it returns the empty sequence (when the first separator is
  the empty one, provided the tokenizer encodes the empty text as no tokens).
\<close>

theorem split_configuration_spec:
  "(split_document (init_splitter tok chunk_size0 chunk_overlap0 seps) doc filepath = Inl e
      \<longrightarrow> chunk_overlap0 = chunk_size0 \<and> e = ValueError ''range() arg 3 must not be zero'')
   \<and> (chunk_overlap0 < chunk_size0
      \<longrightarrow> (\<exists>chunks. split_document (init_splitter tok chunk_size0 chunk_overlap0 seps) doc
                      filepath = Inr chunks))
   \<and> (chunk_overlap0 < chunk_size0
       \<and> (hd (separators (init_splitter tok chunk_size0 chunk_overlap0 seps)) \<noteq> []
          \<or> encode tok [] = [])
      \<longrightarrow> split_document (init_splitter tok chunk_size0 chunk_overlap0 seps) [] filepath
            = Inr [])"
proof (intro conjI impI)
  assume "split_document (init_splitter tok chunk_size0 chunk_overlap0 seps) doc filepath = Inl e"
  from split_document_error [OF this]
  show "chunk_overlap0 = chunk_size0" and "e = ValueError ''range() arg 3 must not be zero''"
    by (simp_all add: init_splitter_fields)
next
  assume "chunk_overlap0 < chunk_size0"
  then have "chunk_overlap (init_splitter tok chunk_size0 chunk_overlap0 seps)
      \<noteq> chunk_size (init_splitter tok chunk_size0 chunk_overlap0 seps)"
    by (simp add: init_splitter_fields)
  then show "\<exists>chunks. split_document (init_splitter tok chunk_size0 chunk_overlap0 seps) doc
      filepath = Inr chunks"
    by (rule split_document_returns)
next
  assume a: "chunk_overlap0 < chunk_size0
       \<and> (hd (separators (init_splitter tok chunk_size0 chunk_overlap0 seps)) \<noteq> []
          \<or> encode tok [] = [])"
  then have "chunk_overlap (init_splitter tok chunk_size0 chunk_overlap0 seps)
      \<noteq> chunk_size (init_splitter tok chunk_size0 chunk_overlap0 seps)"
    by (simp add: init_splitter_fields)
  then show "split_document (init_splitter tok chunk_size0 chunk_overlap0 seps) [] filepath
      = Inr []"
    by (rule split_document_empty) (use a in \<open>auto simp: init_splitter_fields\<close>)
qed

theorem split_configuration_spec_witness:
  "split_document (init_splitter char_tokenizer 1 1 None) ''ab'' ''f''
     = Inl (ValueError ''range() arg 3 must not be zero'')
   \<and> (\<exists>chunks. split_document (init_splitter char_tokenizer 3 1 None) ''ab cd ef'' ''f''
         = Inr chunks)
   \<and> split_document (init_splitter char_tokenizer 3 1 None) [] ''f'' = Inr []"
proof -
  have "encode char_tokenizer [] = []" by (simp add: char_tokenizer_fields)
  then show ?thesis
    using split_configuration_spec [of char_tokenizer 1 1 None "''ab''" "''f''"
        "ValueError ''range() arg 3 must not be zero''"]
      split_configuration_spec [of char_tokenizer 3 1 None "''ab cd ef''" "''f''"]
      example_zero_step
    by simp
qed

theorem split_configuration_counterexample:
  "(5 :: int) \<ge> 5
   \<and> split_document (init_splitter char_tokenizer 5 5 None) ''hi'' ''f''
       = Inr [\<lparr>doc_content = ''hi'', doc_filepath = ''f'', doc_chunk_id = ''f_0''\<rparr>]"
  using example_unchecked by simp


section \<open>Batch answering\<close>

lemma batch_length:
  "length (fst (batch_answer_questions rt store calls questions)) = length questions"
  by (induction questions arbitrary: calls) (simp_all add: Let_def)

lemma batch_append:
  "batch_answer_questions rt store calls (qs @ rest) =
     (fst (batch_answer_questions rt store calls qs)
        @ fst (batch_answer_questions rt store (snd (batch_answer_questions rt store calls qs)) rest),
      snd (batch_answer_questions rt store (snd (batch_answer_questions rt store calls qs)) rest))"
  by (induction qs arbitrary: calls) (simp_all add: Let_def)

lemma batch_nth:
  assumes "i < length questions"
  shows "fst (batch_answer_questions rt store calls questions) ! i =
           fst (answer_question rt store
                  (snd (batch_answer_questions rt store calls (take i questions)))
                  (questions ! i) 5 (3 / 10) True (2 / 10))"
proof -
  have split: "questions = take i questions @ (questions ! i # drop (Suc i) questions)"
    using assms by (simp add: id_take_nth_drop [symmetric])
  have len: "length (fst (batch_answer_questions rt store calls (take i questions))) = i"
    using assms by (simp add: batch_length)
  have "fst (batch_answer_questions rt store calls questions) ! i =
          fst (batch_answer_questions rt store calls
                 (take i questions @ (questions ! i # drop (Suc i) questions))) ! i"
    using split by simp
  also have "\<dots> = fst (batch_answer_questions rt store
                         (snd (batch_answer_questions rt store calls (take i questions)))
                         (questions ! i # drop (Suc i) questions)) ! 0"
    unfolding batch_append using len by (simp add: nth_append)
  finally show ?thesis by (simp add: Let_def)
qed

lemma answer_question_query:
  "query (fst (answer_question rt store calls q top_k thr incl temp)) = q"
  by (auto simp: answer_question_def answer_question_try_def Let_def
      split: prod.splits sum.splits)

lemma answer_question_raised:
  assumes "answer_question_try rt store calls q top_k thr incl temp = (Inl e, calls')"
  shows "answer_question rt store calls q top_k thr incl temp =
           (\<lparr>answer = ''An error occurred while processing your question: '' @ exception_str e,
             sources = [], confidence = ''error'', query = q, num_sources = None\<rparr>, calls')"
  using assms by (simp add: answer_question_def)

text \<open>
  Claim C9. The batch returns one result per question, in the order of the questions:
  the result at position \<open>i\<close> is the answer to question \<open>i\<close>, computed after the questions
  before it whatever became of them, and it carries that question. No exception leaves
  the batch: a question whose processing raises gets the result with confidence \<open>error\<close>.
\<close>

theorem batch_answer_questions_spec:
  "length (fst (batch_answer_questions rt store calls questions)) = length questions
   \<and> (\<forall>i < length questions.
         fst (batch_answer_questions rt store calls questions) ! i =
           fst (answer_question rt store
                  (snd (batch_answer_questions rt store calls (take i questions)))
                  (questions ! i) 5 (3 / 10) True (2 / 10))
         \<and> query (fst (batch_answer_questions rt store calls questions) ! i) = questions ! i
         \<and> (\<forall>e calls'.
               answer_question_try rt store
                 (snd (batch_answer_questions rt store calls (take i questions)))
                 (questions ! i) 5 (3 / 10) True (2 / 10) = (Inl e, calls')
               \<longrightarrow> confidence (fst (batch_answer_questions rt store calls questions) ! i)
                     = ''error''))"
proof (intro conjI allI impI)
  show "length (fst (batch_answer_questions rt store calls questions)) = length questions"
    by (rule batch_length)
next
  fix i
  assume i: "i < length questions"
  show nth: "fst (batch_answer_questions rt store calls questions) ! i =
           fst (answer_question rt store
                  (snd (batch_answer_questions rt store calls (take i questions)))
                  (questions ! i) 5 (3 / 10) True (2 / 10))"
    by (rule batch_nth [OF i])
  show "query (fst (batch_answer_questions rt store calls questions) ! i) = questions ! i"
    unfolding nth by (rule answer_question_query)
  fix e calls'
  assume "answer_question_try rt store
            (snd (batch_answer_questions rt store calls (take i questions)))
            (questions ! i) 5 (3 / 10) True (2 / 10) = (Inl e, calls')"
  then show "confidence (fst (batch_answer_questions rt store calls questions) ! i) = ''error''"
    unfolding nth by (simp add: answer_question_raised)
qed

lemma flaky_query:
  "get_query_embedding flaky_runtime calls ''q'' = (Some [1, 0], calls @ [EmbeddingsCreate ''q''])"
  "get_query_embedding flaky_runtime calls ''bad'' = (None, calls @ [EmbeddingsCreate ''bad''])"
  by (simp_all add: get_query_embedding_def flaky_runtime_def py_strip_def replace_newlines_def
      py_isspace_def Let_def)

lemma flaky_good:
  "confidence (fst (answer_question flaky_runtime (load_embeddings (Some example_file)) calls
       ''q'' 5 (3 / 10) incl temp)) = ''high''"
proof -
  note s = example_search_any [OF flaky_query(1)]
  have "[example_match ''a'' 1 0 1, example_match ''c'' 2 2 1] \<noteq> []" by simp
  note t = answer_question_try_generated [OF s this example_confidence]
  show ?thesis unfolding answer_question_def t by simp
qed

lemma flaky_bad:
  "confidence (fst (answer_question flaky_runtime (load_embeddings (Some example_file)) calls
       ''bad'' 5 (3 / 10) incl temp)) = ''low''"
proof -
  have "similarity_search flaky_runtime (load_embeddings (Some example_file)) calls
          ''bad'' 5 (3 / 10) None = (Inr [], calls @ [EmbeddingsCreate ''bad''])"
    unfolding similarity_search_def example_store
    by (simp add: flaky_query(2) example_file_def)
  then show ?thesis
    unfolding answer_question_def answer_question_try_def by simp
qed

theorem batch_answer_questions_spec_witness:
  "length (fst (batch_answer_questions flaky_runtime (load_embeddings (Some example_file)) []
       [''q'', ''bad'', ''q''])) = 3
   \<and> map confidence (fst (batch_answer_questions flaky_runtime
       (load_embeddings (Some example_file)) [] [''q'', ''bad'', ''q'']))
     = [''high'', ''low'', ''high'']"
proof -
  let ?results = "fst (batch_answer_questions flaky_runtime
       (load_embeddings (Some example_file)) [] [''q'', ''bad'', ''q''])"
  note b = batch_answer_questions_spec [of flaky_runtime "load_embeddings (Some example_file)"
      "[]" "[''q'', ''bad'', ''q'']"]
  from b have len: "length ?results = 3" by simp
  from b have n: "\<forall>i < 3. ?results ! i =
      fst (answer_question flaky_runtime (load_embeddings (Some example_file))
             (snd (batch_answer_questions flaky_runtime (load_embeddings (Some example_file)) []
                (take i [''q'', ''bad'', ''q''])))
             ([''q'', ''bad'', ''q''] ! i) 5 (3 / 10) True (2 / 10))"
    by simp
  have "confidence (?results ! 0) = ''high''"
    using n [rule_format, of 0] by (simp add: flaky_good)
  moreover have "confidence (?results ! 1) = ''low''"
    using n [rule_format, of 1] by (simp add: flaky_bad)
  moreover have "confidence (?results ! 2) = ''high''"
    using n [rule_format, of 2] by (simp add: flaky_good)
  moreover from len obtain r0 r1 r2 where "?results = [r0, r1, r2]"
    by (auto simp: length_Suc_conv eval_nat_numeral)
  ultimately show ?thesis using len by simp
qed

section \<open>Incremental embedding\<close>

lemma fold_dict_set_distinct:
  assumes "distinct (map chunk_id items)" and "chunk_id ` set items \<inter> fst ` set d = {}"
  shows "fold (\<lambda>item acc. dict_set acc (chunk_id item) item) items d
           = d @ map (\<lambda>item. (chunk_id item, item)) items"
  using assms
proof (induction items arbitrary: d)
  case Nil
  show ?case by simp
next
  case (Cons item items)
  have new: "chunk_id item \<notin> fst ` set d" using Cons.prems(2) by auto
  have "chunk_id ` set items \<inter> fst ` set (d @ [(chunk_id item, item)]) = {}"
    using Cons.prems by auto
  with Cons.IH [of "d @ [(chunk_id item, item)]"] Cons.prems(1)
  show ?case by (simp add: dict_set_new [OF new])
qed

lemma load_existing_distinct:
  assumes "distinct (map chunk_id existing)"
  shows "load_existing_embeddings (Some existing) = map (\<lambda>item. (chunk_id item, item)) existing"
  using fold_dict_set_distinct [OF assms, of "[]"] by (simp add: load_existing_embeddings_def)

lemma map_of_existing:
  "map_of (map (\<lambda>item. (chunk_id item, item)) existing) k = None \<longleftrightarrow> k \<notin> chunk_id ` set existing"
  by (simp add: map_of_eq_None_iff image_image)

lemma subseq_member:
  assumes "subseq xs ys" and "x \<in> set xs"
  shows "x \<in> set ys"
  using list_emb_set [OF assms] by auto

lemma generated_subseq:
  "subseq (map meta_of (fst (generate_embeddings_for_chunks rt calls chunks))) chunks"
proof (induction chunks arbitrary: calls)
  case Nil
  show ?case by simp
next
  case (Cons chunk chunks)
  show ?case
  proof (cases "generate_embeddings_with_retry rt calls (content chunk) 3")
    case (Pair e calls')
    then show ?thesis using Cons.IH [of calls']
      by (cases e) (auto simp: Let_def meta_of_def)
  qed
qed

lemma generated_one:
  assumes "generate_embeddings_with_retry rt calls (content chunk) 3 = (Some v, calls')"
  shows "generate_embeddings_for_chunks rt calls [chunk] =
           ([\<lparr>chunk_id = chunk_id chunk, content = content chunk,
              workitem_id = workitem_id chunk, metadata = metadata chunk,
              embedding = Some v\<rparr>], calls')"
  using assms by simp

lemma embedding_main_merge:
  assumes "distinct (map chunk_id existing)"
  shows "fst (embedding_main rt calls (Some chunks) True (Some existing)) =
           Some (existing @ fst (generate_embeddings_for_chunks rt calls
                   (filter (\<lambda>chunk. chunk_id chunk \<notin> chunk_id ` set existing) chunks)))"
proof -
  have m: "map (snd \<circ> (\<lambda>item. (chunk_id item, item))) existing = existing"
    by (induction existing) simp_all
  show ?thesis
    unfolding embedding_main_def load_existing_distinct [OF assms]
    by (simp add: map_of_existing Let_def m)
qed

text \<open>
  Claim C10. With an output file of records with distinct chunk ids, a run leaves every
  existing record in place and unaltered and appends only records of chunks whose id is
  not yet present, in the order of the chunks (a chunk whose embedding fails is left
  out). When exactly one chunk is new and its embedding is generated, the merged file is
  the old file followed by that chunk's record: one record more.
\<close>

theorem incremental_embedding_spec:
  assumes "distinct (map chunk_id existing)"
  shows "(\<exists>new. fst (embedding_main rt calls (Some chunks) True (Some existing))
                  = Some (existing @ new)
           \<and> (\<forall>r\<in>set new. chunk_id r \<notin> chunk_id ` set existing)
           \<and> subseq (map meta_of new)
                 (filter (\<lambda>chunk. chunk_id chunk \<notin> chunk_id ` set existing) chunks))
         \<and> (\<forall>chunk v calls'.
               filter (\<lambda>chunk. chunk_id chunk \<notin> chunk_id ` set existing) chunks = [chunk]
               \<and> generate_embeddings_with_retry rt calls (content chunk) 3 = (Some v, calls')
               \<longrightarrow> fst (embedding_main rt calls (Some chunks) True (Some existing))
                     = Some (existing @ [\<lparr>chunk_id = chunk_id chunk, content = content chunk,
                                          workitem_id = workitem_id chunk,
                                          metadata = metadata chunk, embedding = Some v\<rparr>])
                   \<and> length (existing @ [\<lparr>chunk_id = chunk_id chunk, content = content chunk,
                                          workitem_id = workitem_id chunk,
                                          metadata = metadata chunk, embedding = Some v\<rparr>])
                     = length existing + 1)"
proof (intro conjI allI impI)
  let ?new_chunks = "filter (\<lambda>chunk. chunk_id chunk \<notin> chunk_id ` set existing) chunks"
  let ?new = "fst (generate_embeddings_for_chunks rt calls ?new_chunks)"
  have sub: "subseq (map meta_of ?new) ?new_chunks" by (rule generated_subseq)
  have "chunk_id r \<notin> chunk_id ` set existing" if r: "r \<in> set ?new" for r
  proof -
    have "meta_of r \<in> set (map meta_of ?new)" using r by simp
    then have "meta_of r \<in> set ?new_chunks" using sub by (rule subseq_member [rotated])
    then have "chunk_id (meta_of r) \<notin> chunk_id ` set existing" by simp
    then show ?thesis by (simp add: meta_of_def)
  qed
  then show "\<exists>new. fst (embedding_main rt calls (Some chunks) True (Some existing))
                  = Some (existing @ new)
           \<and> (\<forall>r\<in>set new. chunk_id r \<notin> chunk_id ` set existing)
           \<and> subseq (map meta_of new) ?new_chunks"
    using embedding_main_merge [OF assms] sub by blast
next
  fix chunk v calls'
  assume a: "filter (\<lambda>chunk. chunk_id chunk \<notin> chunk_id ` set existing) chunks = [chunk]
             \<and> generate_embeddings_with_retry rt calls (content chunk) 3 = (Some v, calls')"
  then show "fst (embedding_main rt calls (Some chunks) True (Some existing))
               = Some (existing @ [\<lparr>chunk_id = chunk_id chunk, content = content chunk,
                                    workitem_id = workitem_id chunk,
                                    metadata = metadata chunk, embedding = Some v\<rparr>])"
    using embedding_main_merge [OF assms, of rt calls chunks] generated_one [of rt calls chunk v calls']
    by simp
  show "length (existing @ [\<lparr>chunk_id = chunk_id chunk, content = content chunk,
                            workitem_id = workitem_id chunk,
                            metadata = metadata chunk, embedding = Some v\<rparr>])
          = length existing + 1"
    by simp
qed

lemma example_retry:
  "generate_embeddings_with_retry example_runtime calls ''text'' 3
     = (Some [1, 0], calls @ [EmbeddingsCreate ''text''])"
  by (simp add: generate_embeddings_with_retry_def eval_nat_numeral get_text_embedding_def
      example_runtime_def py_strip_def replace_newlines_def py_isspace_def Let_def)

theorem incremental_embedding_spec_witness:
  "distinct (map chunk_id example_file)
   \<and> fst (embedding_main example_runtime [] (Some (map meta_of example_file @ [example_chunk ''d'' 3]))
          True (Some example_file)) = Some (example_file @ [example_item ''d'' 3 [1, 0]])
   \<and> length (example_file @ [example_item ''d'' 3 [1, 0]]) = length example_file + 1"
proof -
  have d: "distinct (map chunk_id example_file)"
    by (simp add: example_file_def example_item_def)
  have f: "filter (\<lambda>chunk. chunk_id chunk \<notin> chunk_id ` set example_file)
             (map meta_of example_file @ [example_chunk ''d'' 3]) = [example_chunk ''d'' 3]"
    by (simp add: example_file_def example_item_def example_chunk_def meta_of_def)
  have g: "generate_embeddings_with_retry example_runtime [] (content (example_chunk ''d'' 3)) 3
             = (Some [1, 0], [EmbeddingsCreate ''text''])"
    using example_retry [of "[]"] by (simp add: example_chunk_def)
  from incremental_embedding_spec [OF d, of example_runtime "[]"
      "map meta_of example_file @ [example_chunk ''d'' 3]"] f g
  have "fst (embedding_main example_runtime [] (Some (map meta_of example_file @ [example_chunk ''d'' 3]))
          True (Some example_file))
        = Some (example_file @ [\<lparr>chunk_id = chunk_id (example_chunk ''d'' 3),
                                  content = content (example_chunk ''d'' 3),
                                  workitem_id = workitem_id (example_chunk ''d'' 3),
                                  metadata = metadata (example_chunk ''d'' 3),
                                  embedding = Some [1, 0]\<rparr>])"
    by blast
  then show ?thesis using d by (simp add: example_chunk_def example_item_def)
qed

end
